theory Spec2Isabelle
  imports Main
begin

section \<open>JavaScript values\<close>

text \<open>
  The values that a Field Mapping carries and that \<open>JSON.stringify\<close> encodes. Numbers are
  restricted to integers and strings to 8-bit code units. \<open>JError name message\<close> is an
  instance of \<open>Error\<close> (or of a subclass such as \<open>TypeError\<close>): its \<open>name\<close> and
  \<open>message\<close> are not enumerable own properties, so that an encoder without a replacer
  sees an object with no properties. An object is the list of its own enumerable
  string-keyed properties in enumeration order. The type has no \<open>BigInt\<close> and no cyclic
  structure, the two values on which \<open>JSON.stringify\<close> throws.
\<close>

datatype jsval =
    JUndefined
  | JNull
  | JBool bool
  | JNum int
  | JStr string
  | JArr "jsval list"
  | JObj "(string \<times> jsval) list"
  | JError string string

type_synonym jsobject = "(string \<times> jsval) list"

text \<open>
  A pending computation is a promise that eventually produces a value or fails with a
  reason. It settles once and for all, and nothing is serialized before it has, so the
  embedding records the outcome it settles with; a promise that never settles is not a
  value of the type. A field of the mapping is a plain value or a promise.
\<close>

datatype promise = Resolves jsval | Rejects jsval

datatype fieldval = Plain jsval | Pending promise

type_synonym data = "(string \<times> fieldval) list"

subsection \<open>Object primitives\<close>

definition Object_keys :: "(string \<times> 'a) list \<Rightarrow> string list" where
  "Object_keys obj = map fst obj"

definition Object_values :: "(string \<times> 'a) list \<Rightarrow> 'a list" where
  "Object_values obj = map snd obj"

text \<open>Assignment \<open>obj[k] = v\<close>: an existing property keeps its place, a new one goes last.\<close>

definition set_prop :: "(string \<times> 'a) list \<Rightarrow> string \<Rightarrow> 'a \<Rightarrow> (string \<times> 'a) list" where
  "set_prop obj k v =
     (if k \<in> set (map fst obj)
      then map (\<lambda>(k', v'). if k' = k then (k', v) else (k', v')) obj
      else obj @ [(k, v)])"

definition Object_fromEntries :: "(string \<times> 'a) list \<Rightarrow> (string \<times> 'a) list" where
  "Object_fromEntries entries = fold (\<lambda>(k, v) obj. set_prop obj k v) entries []"

text \<open>Indexing \<open>values[i]\<close>: \<open>undefined\<close> beyond the end.\<close>

definition index_or_undefined :: "jsval list \<Rightarrow> nat \<Rightarrow> jsval" where
  "index_or_undefined values i = (if i < length values then values ! i else JUndefined)"

subsection \<open>Promise combinators\<close>

text \<open>
  \<open>Promise.all\<close> adopts every element (a plain value counts as already fulfilled) and
  fulfils with the list of values, or rejects (\<open>Inl\<close>) as soon as one element rejects.
  Which reason it rejects with is decided by the order of settling; the embedding takes
  the first rejected element in iteration order, and the only caller discards the reason.
\<close>

fun Promise_all :: "fieldval list \<Rightarrow> jsval + jsval list" where
  "Promise_all [] = Inr []"
| "Promise_all (Plain v # fs) =
     (case Promise_all fs of Inl r \<Rightarrow> Inl r | Inr vs \<Rightarrow> Inr (v # vs))"
| "Promise_all (Pending (Resolves v) # fs) =
     (case Promise_all fs of Inl r \<Rightarrow> Inl r | Inr vs \<Rightarrow> Inr (v # vs))"
| "Promise_all (Pending (Rejects r) # fs) = Inl r"

text \<open>\<open>Promise.allSettled\<close> never rejects: one settlement record per element.\<close>

definition fulfilled_record :: "jsval \<Rightarrow> jsval" where
  "fulfilled_record v = JObj [(''status'', JStr ''fulfilled''), (''value'', v)]"

definition rejected_record :: "jsval \<Rightarrow> jsval" where
  "rejected_record r = JObj [(''status'', JStr ''rejected''), (''reason'', r)]"

fun settle :: "fieldval \<Rightarrow> jsval" where
  "settle (Plain v) = fulfilled_record v"
| "settle (Pending (Resolves v)) = fulfilled_record v"
| "settle (Pending (Rejects r)) = rejected_record r"

definition Promise_allSettled :: "fieldval list \<Rightarrow> jsval list" where
  "Promise_allSettled fs = map settle fs"

section \<open>The settlement engine\<close>

text \<open>
  \<^verbatim>\<open>
  const hash = async (data) => {
    const values = await Promise.all(Object.values(data));
    return Object.fromEntries(Object.keys(data).map((prop, i) => [prop, values[i]]));
  };
  \<close>
\<close>

definition hash :: "data \<Rightarrow> jsval + jsobject" where
  "hash data =
     (case Promise_all (Object_values data) of
        Inl reason \<Rightarrow> Inl reason
      | Inr values \<Rightarrow>
          Inr (Object_fromEntries
                 (map (\<lambda>(i, prop). (prop, index_or_undefined values i))
                      (enumerate 0 (Object_keys data)))))"

text \<open>
  \<^verbatim>\<open>
  const hashSettled = async (data) => {
    const values = await Promise.allSettled(Object.values(data));
    return Object.fromEntries(Object.keys(data).map((prop, i) => [prop, values[i]]));
  };
  \<close>
  The promise this function returns always fulfils, so the embedding returns its value.
\<close>

definition hashSettled :: "data \<Rightarrow> jsobject" where
  "hashSettled data =
     (let values = Promise_allSettled (Object_values data)
      in Object_fromEntries
           (map (\<lambda>(i, prop). (prop, index_or_undefined values i))
                (enumerate 0 (Object_keys data))))"

section \<open>JSON encoding\<close>

text \<open>
  \<^verbatim>\<open>
  const errorReplacer = (_key, value) => {
    if (value instanceof Error) {
      return { message: value.message, name: value.name, isError: true };
    }
    return value;
  };
  \<close>
\<close>

definition errorReplacer :: "string \<Rightarrow> jsval \<Rightarrow> jsval" where
  "errorReplacer key val =
     (case val of
        JError name message \<Rightarrow>
          JObj [(''message'', JStr message), (''name'', JStr name), (''isError'', JBool True)]
      | _ \<Rightarrow> val)"

text \<open>The second argument of \<open>JSON.stringify\<close>: absent, or the function above.\<close>

datatype replacer = NoReplacer | ErrorReplacer

fun call_replacer :: "replacer \<Rightarrow> string \<Rightarrow> jsval \<Rightarrow> jsval" where
  "call_replacer NoReplacer key val = val"
| "call_replacer ErrorReplacer key val = errorReplacer key val"

fun digit_char :: "nat \<Rightarrow> char" where
  "digit_char n = (''0123456789abcdef'' ! n)"

fun nat_toString :: "nat \<Rightarrow> string" where
  "nat_toString n =
     (if n < 10 then [digit_char n] else nat_toString (n div 10) @ [digit_char (n mod 10)])"

definition Number_toString :: "int \<Rightarrow> string" where
  "Number_toString n =
     (if n < 0 then CHR ''-'' # nat_toString (nat (- n)) else nat_toString (nat n))"

text \<open>\<open>QuoteJSONString\<close> of ECMA-262, on 8-bit code units.\<close>

definition escape_unit :: "char \<Rightarrow> string" where
  "escape_unit c =
     (if c = CHR 0x08 then [CHR 0x5C, CHR ''b'']
      else if c = CHR 0x09 then [CHR 0x5C, CHR ''t'']
      else if c = CHR 0x0A then [CHR 0x5C, CHR ''n'']
      else if c = CHR 0x0C then [CHR 0x5C, CHR ''f'']
      else if c = CHR 0x0D then [CHR 0x5C, CHR ''r'']
      else if c = CHR 0x22 then [CHR 0x5C, CHR 0x22]
      else if c = CHR 0x5C then [CHR 0x5C, CHR 0x5C]
      else if (of_char c :: nat) < 32
        then [CHR 0x5C, CHR ''u'', CHR ''0'', CHR ''0'',
              digit_char (of_char c div 16), digit_char (of_char c mod 16)]
      else [c])"

definition QuoteJSONString :: "string \<Rightarrow> string" where
  "QuoteJSONString s = [CHR 0x22] @ concat (map escape_unit s) @ [CHR 0x22]"

fun join :: "string \<Rightarrow> string list \<Rightarrow> string" where
  "join sep [] = []"
| "join sep [x] = x"
| "join sep (x # y # ys) = x @ sep @ join sep (y # ys)"

text \<open>
  \<open>SerializeJSONProperty\<close> of ECMA-262 without indentation: the replacer is called on
  the value held under the key, then the result is encoded by its type. \<open>None\<close> is the
  result \<open>undefined\<close>: such a property is left out of an object and is \<open>null\<close> in an
  array. An \<open>Error\<close> that reaches the encoder has no enumerable property.
\<close>

fun weight :: "jsval \<Rightarrow> nat" where
  "weight (JArr elems) = Suc (sum_list (map weight elems))"
| "weight (JObj props) = Suc (sum_list (map (\<lambda>kv. weight (snd kv)) props))"
| "weight (JError name message) = 5"
| "weight _ = 1"

function SerializeJSONProperty :: "replacer \<Rightarrow> string \<Rightarrow> jsval \<Rightarrow> string option" where
  "SerializeJSONProperty rep key held =
     (case call_replacer rep key held of
        JUndefined \<Rightarrow> None
      | JNull \<Rightarrow> Some ''null''
      | JBool b \<Rightarrow> Some (if b then ''true'' else ''false'')
      | JNum n \<Rightarrow> Some (Number_toString n)
      | JStr s \<Rightarrow> Some (QuoteJSONString s)
      | JArr elems \<Rightarrow>
          Some (''['' @ join '','' (map (\<lambda>(i, e).
                   case SerializeJSONProperty rep (nat_toString i) e of
                     None \<Rightarrow> ''null'' | Some str \<Rightarrow> str) (enumerate 0 elems)) @ '']'')
      | JObj props \<Rightarrow>
          Some (''{'' @ join '','' (concat (map (\<lambda>(k, v).
                   case SerializeJSONProperty rep k v of
                     None \<Rightarrow> [] | Some str \<Rightarrow> [QuoteJSONString k @ '':'' @ str]) props)) @ ''}'')
      | JError name message \<Rightarrow> Some ''{}'')"
  by pat_completeness auto
termination
proof (relation "measure (\<lambda>(rep, key, held). weight held)", goal_cases)
  case 1
  show ?case by simp
next
  case (2 rep key held elems ie i e)
  have shrink: "weight (call_replacer rep key held) \<le> weight held"
    by (cases rep; cases held) (simp_all add: errorReplacer_def)
  have inside: "x \<in> set xs \<Longrightarrow> weight x < weight (JArr xs)" for x xs
    by (induction xs) auto
  from 2(2,3) have "e \<in> set elems"
    by (auto simp: in_set_enumerate_eq)
  then have "weight e < weight (JArr elems)"
    by (rule inside)
  also have "\<dots> \<le> weight held"
    using shrink 2(1) by simp
  finally show ?case by simp
next
  case (3 rep key held props kv k v)
  have shrink: "weight (call_replacer rep key held) \<le> weight held"
    by (cases rep; cases held) (simp_all add: errorReplacer_def)
  have inside: "(a, x) \<in> set xs \<Longrightarrow> weight x < weight (JObj xs)" for a x xs
    by (induction xs) auto
  from 3(2,3) have "(k, v) \<in> set props" by simp
  then have "weight v < weight (JObj props)"
    by (rule inside)
  also have "\<dots> \<le> weight held"
    using shrink 3(1) by simp
  finally show ?case by simp
qed

text \<open>\<open>JSON.stringify(value, replacer)\<close>: the value is held under the empty key.\<close>

definition JSON_stringify :: "replacer \<Rightarrow> jsval \<Rightarrow> string option" where
  "JSON_stringify rep val = SerializeJSONProperty rep '''' val"

section \<open>Response objects of the host\<close>

text \<open>
  The \<open>Response\<close>, \<open>Headers\<close> and \<open>Readable\<close> classes belong to the host, not to
  this package; the embedding keeps what the package relies on, after the fetch
  implementation the package is tested with (\<open>@remix-run/web-fetch\<close>). A header list keeps
  its entries in order; names are compared without regard to ASCII case, and a lookup
  joins the values of all entries of that name. The constructor of \<open>Headers\<close> throws a
  \<open>TypeError\<close> when a name is not an HTTP token or a value holds a character that a
  header may not carry; what it accepts it stores as given. The constructor of
  \<open>Response\<close> takes a \<open>Readable\<close> as a body and accepts every status the package
  passes, with or without a body.
\<close>

datatype error = TypeError

type_synonym header_list = "(string \<times> string) list"

text \<open>
  The characters of a token: letters, digits and
  \<^verbatim>\<open>! # $ % & ' * + - . ^ _ ` | ~\<close>.
\<close>

definition token_char :: "char \<Rightarrow> bool" where
  "token_char c =
     (let n = (of_char c :: nat)
      in (48 \<le> n \<and> n \<le> 57) \<or> (65 \<le> n \<and> n \<le> 90) \<or> (97 \<le> n \<and> n \<le> 122) \<or>
         n \<in> set [33, 35, 36, 37, 38, 39, 42, 43, 45, 46, 94, 95, 96, 124, 126])"

definition valid_header_name :: "string \<Rightarrow> bool" where
  "valid_header_name name = (name \<noteq> [] \<and> list_all token_char name)"

text \<open>The characters of a value: the tab, and every code unit from 0x20 on but 0x7F.\<close>

definition value_char :: "char \<Rightarrow> bool" where
  "value_char c =
     (let n = (of_char c :: nat) in n = 9 \<or> (32 \<le> n \<and> n \<le> 126) \<or> 128 \<le> n)"

definition valid_header_value :: "string \<Rightarrow> bool" where
  "valid_header_value v = list_all value_char v"

definition valid_entry :: "string \<times> string \<Rightarrow> bool" where
  "valid_entry e = (valid_header_name (fst e) \<and> valid_header_value (snd e))"

definition ascii_lower :: "char \<Rightarrow> char" where
  "ascii_lower c =
     (if 65 \<le> (of_char c :: nat) \<and> (of_char c :: nat) \<le> 90
      then char_of (of_char c + (32 :: nat)) else c)"

definition same_header_name :: "string \<Rightarrow> string \<Rightarrow> bool" where
  "same_header_name a b = (map ascii_lower a = map ascii_lower b)"

definition Headers_get :: "header_list \<Rightarrow> string \<Rightarrow> string option" where
  "Headers_get hs name =
     (case filter (\<lambda>(n, v). same_header_name n name) hs of
        [] \<Rightarrow> None
      | matching \<Rightarrow> Some (join '', '' (map snd matching)))"

text \<open>
  A \<open>HeadersInit\<close> is a plain object of entries, an array of name/value pairs, or a
  \<open>Headers\<close> instance. The \<open>Headers\<close> constructor reads all three; the object spread
  \<open>{...headers}\<close> copies own enumerable properties only: the entries of a plain object,
  the indices of an array (each holding a pair, which as a header value reads
  \<open>name,value\<close>), and nothing of a \<open>Headers\<close> instance.
\<close>

datatype headers_init =
    HeadersRecord header_list
  | HeadersPairs header_list
  | HeadersInstance header_list

fun header_entries :: "headers_init option \<Rightarrow> header_list" where
  "header_entries None = []"
| "header_entries (Some (HeadersRecord entries)) = entries"
| "header_entries (Some (HeadersPairs pairs)) = pairs"
| "header_entries (Some (HeadersInstance hs)) = hs"

definition Headers_new :: "headers_init option \<Rightarrow> error + header_list" where
  "Headers_new hi =
     (let entries = header_entries hi
      in if list_all valid_entry entries then Inr entries else Inl TypeError)"

fun spread_headers :: "headers_init option \<Rightarrow> header_list" where
  "spread_headers None = []"
| "spread_headers (Some (HeadersRecord entries)) = entries"
| "spread_headers (Some (HeadersPairs pairs)) =
     map (\<lambda>(i, (n, v)). (nat_toString i, n @ '','' @ v)) (enumerate 0 pairs)"
| "spread_headers (Some (HeadersInstance hs)) = []"

text \<open>
  The configuration object. Its type leaves \<open>status\<close> out, but nothing keeps a caller from
  passing one, so the field is there.
\<close>

record init =
  init_status :: "nat option"
  init_statusText :: "string option"
  init_headers :: "headers_init option"

text \<open>\<open>{...init}\<close> of an optional configuration.\<close>

fun spread_init :: "init option \<Rightarrow> init" where
  "spread_init None = \<lparr>init_status = None, init_statusText = None, init_headers = None\<rparr>"
| "spread_init (Some i) = i"

datatype body = NullBody | TextBody string | StreamBody nat

text \<open>The closure \<open>then\<close> that \<open>responseFunction\<close> attaches: it captures its arguments.\<close>

datatype thenable = Then nat data "init option"

record response =
  resp_status :: nat
  resp_statusText :: string
  resp_headers :: header_list
  resp_body :: body
  resp_then :: "thenable option"

record readable =
  chunks :: "string list"
  ended :: bool

text \<open>
  A reaction waiting on \<open>hashSettled(data)\<close>: once that has settled, it fills the stream.
\<close>

datatype reaction = FillStream nat data

text \<open>
  Objects live in a store and are named by their index in it, so that two response
  objects with equal fields are still two objects. A function that may throw returns
  the error (\<open>Inl\<close>) or its value (\<open>Inr\<close>) next to the store it leaves behind.
\<close>

record world =
  responses :: "response list"
  streams :: "readable list"
  reactions :: "reaction list"

definition empty_world :: world where
  "empty_world = \<lparr>responses = [], streams = [], reactions = []\<rparr>"

text \<open>
  \<open>new Response(body, init)\<close>: the headers are built first, and their error is the
  constructor's; status 200 and an empty status text unless given; a text body brings
  its own content type when the headers name none.
\<close>

definition Response_new :: "body \<Rightarrow> init \<Rightarrow> world \<Rightarrow> (error + nat) \<times> world" where
  "Response_new b i w =
     (case Headers_new (init_headers i) of
        Inl e \<Rightarrow> (Inl e, w)
      | Inr hs \<Rightarrow>
          (let hs' = (case b of
                        TextBody t \<Rightarrow>
                          (if Headers_get hs ''Content-Type'' = None
                           then hs @ [(''Content-Type'', ''text/plain;charset=UTF-8'')] else hs)
                      | _ \<Rightarrow> hs);
               r = \<lparr>resp_status = (case init_status i of None \<Rightarrow> 200 | Some st \<Rightarrow> st),
                    resp_statusText = (case init_statusText i of None \<Rightarrow> [] | Some t \<Rightarrow> t),
                    resp_headers = hs',
                    resp_body = b,
                    resp_then = None\<rparr>
           in (Inr (length (responses w)), w\<lparr>responses := responses w @ [r]\<rparr>)))"

definition Readable_new :: "world \<Rightarrow> nat \<times> world" where
  "Readable_new w =
     (length (streams w), w\<lparr>streams := streams w @ [\<lparr>chunks = [], ended = False\<rparr>]\<rparr>)"

text \<open>\<open>stream.push(chunk)\<close>; \<open>stream.push(null)\<close> ends the stream.\<close>

definition push_chunk :: "nat \<Rightarrow> string \<Rightarrow> world \<Rightarrow> world" where
  "push_chunk s chunk w =
     (if s < length (streams w)
      then w\<lparr>streams := (streams w)[s := (streams w ! s)\<lparr>chunks := chunks (streams w ! s) @ [chunk]\<rparr>]\<rparr>
      else w)"

definition push_null :: "nat \<Rightarrow> world \<Rightarrow> world" where
  "push_null s w =
     (if s < length (streams w)
      then w\<lparr>streams := (streams w)[s := (streams w ! s)\<lparr>ended := True\<rparr>]\<rparr>
      else w)"

text \<open>What a reader of the response's body gets: nothing before a stream has ended.\<close>

definition stream_text :: "world \<Rightarrow> nat \<Rightarrow> string option" where
  "stream_text w s =
     (if s < length (streams w) \<and> ended (streams w ! s)
      then Some (concat (chunks (streams w ! s))) else None)"

definition body_text :: "world \<Rightarrow> nat \<Rightarrow> string option" where
  "body_text w r =
     (if r < length (responses w)
      then (case resp_body (responses w ! r) of
              NullBody \<Rightarrow> None
            | TextBody t \<Rightarrow> Some t
            | StreamBody s \<Rightarrow> stream_text w s)
      else None)"

text \<open>A string from \<open>JSON.stringify\<close> as a body; \<open>undefined\<close> is no body.\<close>

fun as_body :: "string option \<Rightarrow> body" where
  "as_body None = NullBody"
| "as_body (Some t) = TextBody t"

section \<open>The response builders\<close>

text \<open>
  \<^verbatim>\<open>
  const makeResponse = ({ status, body, init }) => {
    return new Response(body, {
      ...init,
      status,
      headers: {
        ...init?.headers,
        'Content-Type': 'application/json; charset=utf-8',
      },
    });
  };
  \<close>
\<close>

definition makeResponse :: "nat \<Rightarrow> body \<Rightarrow> init option \<Rightarrow> world \<Rightarrow> (error + nat) \<times> world" where
  "makeResponse status b i w =
     Response_new b
       ((spread_init i)
          \<lparr>init_status := Some status,
           init_headers :=
             Some (HeadersRecord
                     (set_prop (spread_headers (case i of None \<Rightarrow> None | Some c \<Rightarrow> init_headers c))
                        ''Content-Type'' ''application/json; charset=utf-8''))\<rparr>)
       w"

text \<open>
  The continuation \<open>then\<close> of \<open>responseFunction\<close>:
  \<^verbatim>\<open>
  (cb, eb) =>
    hash(data)
      .then(data => makeResponse({ body: JSON.stringify(data), status, init }))
      .catch(async () => {
        const result = await hashSettled(data);
        return Promise.reject(
          makeResponse({ body: JSON.stringify(result, errorReplacer), status: 500, init }));
      })
      .then(cb, eb);
  \<close>
  The handler of \<open>catch\<close> runs when \<open>hash\<close> rejects and when the handler before it
  throws. It rejects with the response it builds, or with the error of building it;
  \<open>eb\<close> receives what the chain rejects with, \<open>cb\<close> the response it resolves to.
\<close>

datatype thrown = ThrownResponse nat | ThrownError error

definition response_catch :: "data \<Rightarrow> init option \<Rightarrow> (thrown \<Rightarrow> 'a) \<Rightarrow> world \<Rightarrow> 'a \<times> world" where
  "response_catch d i eb w =
     (let result = hashSettled d
      in case makeResponse 500 (as_body (JSON_stringify ErrorReplacer (JObj result))) i w of
           (Inr r, w') \<Rightarrow> (eb (ThrownResponse r), w')
         | (Inl e, w') \<Rightarrow> (eb (ThrownError e), w'))"

definition response_then ::
  "nat \<Rightarrow> data \<Rightarrow> init option \<Rightarrow> (nat \<Rightarrow> 'a) \<Rightarrow> (thrown \<Rightarrow> 'a) \<Rightarrow> world \<Rightarrow> 'a \<times> world" where
  "response_then status d i cb eb w =
     (case hash d of
        Inr resolved \<Rightarrow>
          (case makeResponse status (as_body (JSON_stringify NoReplacer (JObj resolved))) i w of
             (Inr r, w') \<Rightarrow> (cb r, w')
           | (Inl e, w') \<Rightarrow> response_catch d i eb w')
      | Inl reason \<Rightarrow> response_catch d i eb w)"

text \<open>
  \<^verbatim>\<open>
  const responseFunction = (status, data, init) => {
    const stream = new Readable();
    stream._read = () => {};
    hashSettled(data).then(result => {
      stream.push(JSON.stringify(result, errorReplacer));
      stream.push(null);
    });
    let response = makeResponse({ body: stream, status, init });
    const then = ...;
    response.then = then;
    return response;
  };
  \<close>
  The function returns before the reaction on \<open>hashSettled(data)\<close> has run; when
  \<open>makeResponse\<close> throws, the stream and the reaction are there already.
\<close>

definition set_then :: "nat \<Rightarrow> thenable \<Rightarrow> world \<Rightarrow> world" where
  "set_then r t w =
     (if r < length (responses w)
      then w\<lparr>responses := (responses w)[r := (responses w ! r)\<lparr>resp_then := Some t\<rparr>]\<rparr>
      else w)"

definition responseFunction ::
  "nat \<Rightarrow> data \<Rightarrow> init option \<Rightarrow> world \<Rightarrow> (error + nat) \<times> world" where
  "responseFunction status d i w =
     (let (stream, w1) = Readable_new w;
          w2 = w1\<lparr>reactions := reactions w1 @ [FillStream stream d]\<rparr>
      in case makeResponse status (StreamBody stream) i w2 of
           (Inr response, w3) \<Rightarrow> (Inr response, set_then response (Then status d i) w3)
         | (Inl e, w3) \<Rightarrow> (Inl e, w3))"

text \<open>The reaction registered above, and the event loop running all that are waiting.\<close>

fun run_reaction :: "reaction \<Rightarrow> world \<Rightarrow> world" where
  "run_reaction (FillStream stream d) w =
     (let result = hashSettled d
      in push_null stream
           (case JSON_stringify ErrorReplacer (JObj result) of
              None \<Rightarrow> w
            | Some text \<Rightarrow> push_chunk stream text w))"

definition run_reactions :: "world \<Rightarrow> world" where
  "run_reactions w = fold run_reaction (reactions w) (w\<lparr>reactions := []\<rparr>)"

text \<open>
  \<open>await response\<close>: a response with a \<open>then\<close> is awaited through it, with the
  continuations of the awaiting code (\<open>Inr\<close>: the value of the await, \<open>Inl\<close>: the
  value thrown by it); any other response is the value itself.
\<close>

definition await :: "nat \<Rightarrow> world \<Rightarrow> (thrown + nat) \<times> world" where
  "await r w =
     (if r < length (responses w)
      then (case resp_then (responses w ! r) of
              None \<Rightarrow> (Inr r, w)
            | Some (Then status d i) \<Rightarrow> response_then status d i Inr Inl w)
      else (Inr r, w))"

text \<open>
  \<^verbatim>\<open>
  const redirectFunction = (status, url) => {
    return new Response(null, { status, headers: { Location: url } });
  };
  \<close>
\<close>

definition redirectFunction :: "nat \<Rightarrow> string \<Rightarrow> world \<Rightarrow> (error + nat) \<times> world" where
  "redirectFunction status url w =
     Response_new NullBody
       \<lparr>init_status = Some status, init_statusText = None,
        init_headers = Some (HeadersRecord [(''Location'', url)])\<rparr> w"

section \<open>The named operations\<close>

type_synonym mapping_operation = "data \<Rightarrow> init option \<Rightarrow> world \<Rightarrow> (error + nat) \<times> world"

definition ok :: mapping_operation where "ok = responseFunction 200"
definition created :: mapping_operation where "created = responseFunction 201"

text \<open>\<^verbatim>\<open>export const noContent = (init) => new Response(null, { ...init, status: 204 });\<close>\<close>

definition noContent :: "init option \<Rightarrow> world \<Rightarrow> (error + nat) \<times> world" where
  "noContent i w = Response_new NullBody ((spread_init i)\<lparr>init_status := Some 204\<rparr>) w"

definition resetContent :: mapping_operation where "resetContent = responseFunction 205"
definition partialContent :: mapping_operation where "partialContent = responseFunction 206"

text \<open>
  The redirects are \<open>redirectFunction.bind(null, status)\<close>: functions of the URL alone.
  A caller may still pass a second argument, as to any function; it is bound to no
  parameter.
\<close>

type_synonym redirect_operation = "string \<Rightarrow> init option \<Rightarrow> world \<Rightarrow> (error + nat) \<times> world"

definition movedPermanently :: redirect_operation where
  "movedPermanently url extra = redirectFunction 301 url"
definition found :: redirect_operation where
  "found url extra = redirectFunction 302 url"
definition seeOther :: redirect_operation where
  "seeOther url extra = redirectFunction 303 url"
definition notModified :: redirect_operation where
  "notModified url extra = redirectFunction 304 url"
definition temporaryRedirect :: redirect_operation where
  "temporaryRedirect url extra = redirectFunction 307 url"
definition permanentRedirect :: redirect_operation where
  "permanentRedirect url extra = redirectFunction 308 url"

definition badRequest :: mapping_operation where "badRequest = responseFunction 400"
definition unauthorized :: mapping_operation where "unauthorized = responseFunction 401"
definition forbidden :: mapping_operation where "forbidden = responseFunction 403"
definition notFound :: mapping_operation where "notFound = responseFunction 404"
definition methodNotAllowed :: mapping_operation where "methodNotAllowed = responseFunction 405"
definition notAcceptable :: mapping_operation where "notAcceptable = responseFunction 406"
definition conflict :: mapping_operation where "conflict = responseFunction 409"
definition gone :: mapping_operation where "gone = responseFunction 410"
definition preconditionFailed :: mapping_operation where
  "preconditionFailed = responseFunction 412"
definition expectationFailed :: mapping_operation where
  "expectationFailed = responseFunction 417"
definition teapot :: mapping_operation where "teapot = responseFunction 418"
definition preconditionRequired :: mapping_operation where
  "preconditionRequired = responseFunction 428"
definition tooManyRequests :: mapping_operation where "tooManyRequests = responseFunction 429"

definition serverError :: mapping_operation where "serverError = responseFunction 500"
definition notImplemented :: mapping_operation where "notImplemented = responseFunction 501"
definition serviceUnavailable :: mapping_operation where
  "serviceUnavailable = responseFunction 503"

text \<open>
  The table of the external interface: each operation with the status code fixed for it.
\<close>

definition mapping_operations :: "(nat \<times> mapping_operation) list" where
  "mapping_operations =
     [(200, ok), (201, created), (205, resetContent), (206, partialContent),
      (400, badRequest), (401, unauthorized), (403, forbidden), (404, notFound),
      (405, methodNotAllowed), (406, notAcceptable), (409, conflict), (410, gone),
      (412, preconditionFailed), (417, expectationFailed), (418, teapot),
      (428, preconditionRequired), (429, tooManyRequests),
      (500, serverError), (501, notImplemented), (503, serviceUnavailable)]"

definition redirect_operations :: "(nat \<times> redirect_operation) list" where
  "redirect_operations =
     [(301, movedPermanently), (302, found), (303, seeOther), (304, notModified),
      (307, temporaryRedirect), (308, permanentRedirect)]"

section \<open>Notions of the specification\<close>

text \<open>A field that settles by fulfilling: a plain value, or a promise that resolves.\<close>

fun fulfils :: "fieldval \<Rightarrow> bool" where
  "fulfils (Plain v) = True"
| "fulfils (Pending (Resolves v)) = True"
| "fulfils (Pending (Rejects reason)) = False"

text \<open>
  An entry of the mapping against the entry that replaces a pending computation by its
  fulfilled value and passes a plain value through.
\<close>

definition fulfilled_as :: "string \<times> fieldval \<Rightarrow> string \<times> jsval \<Rightarrow> bool" where
  "fulfilled_as entry entry' =
     (fst entry' = fst entry \<and>
      (snd entry = Plain (snd entry') \<or> snd entry = Pending (Resolves (snd entry'))))"

text \<open>A mapping without pending computations, made from a plain object.\<close>

definition plain_mapping :: "jsobject \<Rightarrow> data" where
  "plain_mapping obj = map (\<lambda>(k, v). (k, Plain v)) obj"

text \<open>Values with no \<open>Error\<close> anywhere inside, and the expansion of every \<open>Error\<close>.\<close>

fun error_free :: "jsval \<Rightarrow> bool" where
  "error_free (JArr elems) = list_all error_free elems"
| "error_free (JObj props) = list_all (\<lambda>kv. error_free (snd kv)) props"
| "error_free (JError name message) = False"
| "error_free _ = True"

fun expand_errors :: "jsval \<Rightarrow> jsval" where
  "expand_errors (JArr elems) = JArr (map expand_errors elems)"
| "expand_errors (JObj props) = JObj (map (\<lambda>kv. (fst kv, expand_errors (snd kv))) props)"
| "expand_errors (JError name message) =
     JObj [(''message'', JStr message), (''name'', JStr name), (''isError'', JBool True)]"
| "expand_errors v = v"

text \<open>Every waiting reaction fills a stream that exists.\<close>

definition reactions_allocated :: "world \<Rightarrow> bool" where
  "reactions_allocated w =
     list_all (\<lambda>rc. case rc of FillStream s d \<Rightarrow> s < length (streams w)) (reactions w)"

text \<open>
  The headers object that \<open>makeResponse\<close> hands to the constructor, and the
  configurations for which the constructor accepts it.
\<close>

definition json_headers :: "init option \<Rightarrow> header_list" where
  "json_headers i =
     set_prop (spread_headers (case i of None \<Rightarrow> None | Some c \<Rightarrow> init_headers c))
       ''Content-Type'' ''application/json; charset=utf-8''"

definition headers_accepted :: "init option \<Rightarrow> bool" where
  "headers_accepted i = list_all valid_entry (json_headers i)"

section \<open>Objects and promises\<close>

declare SerializeJSONProperty.simps [simp del]

lemma set_prop_fresh: "k \<notin> set (map fst obj) \<Longrightarrow> set_prop obj k v = obj @ [(k, v)]"
  by (simp add: set_prop_def)

lemma fold_set_prop_distinct:
  "distinct (map fst (acc @ entries)) \<Longrightarrow>
   fold (\<lambda>(k, v) obj. set_prop obj k v) entries acc = acc @ entries"
proof (induction entries arbitrary: acc)
  case Nil
  then show ?case by simp
next
  case (Cons e entries)
  obtain k v where e: "e = (k, v)" by (cases e)
  from Cons.prems have fresh: "k \<notin> set (map fst acc)"
    by (auto simp: e)
  from Cons.prems have "distinct (map fst ((acc @ [(k, v)]) @ entries))"
    by (simp add: e)
  then have "fold (\<lambda>(k, v) obj. set_prop obj k v) entries (acc @ [(k, v)])
             = (acc @ [(k, v)]) @ entries"
    by (rule Cons.IH)
  then show ?case
    using fresh by (simp add: e set_prop_fresh)
qed

lemma Object_fromEntries_distinct:
  "distinct (map fst entries) \<Longrightarrow> Object_fromEntries entries = entries"
  using fold_set_prop_distinct [of "[]" entries] by (simp add: Object_fromEntries_def)

lemma indexed_entries:
  "length values = length keys \<Longrightarrow>
   map (\<lambda>(i, prop). (prop, index_or_undefined values i)) (enumerate 0 keys) = zip keys values"
  by (rule nth_equalityI) (simp_all add: nth_enumerate_eq index_or_undefined_def)

lemma reassociate:
  assumes "length values = length keys" and "distinct keys"
  shows "Object_fromEntries
           (map (\<lambda>(i, prop). (prop, index_or_undefined values i)) (enumerate 0 keys))
         = zip keys values"
proof -
  have "map fst (zip keys values) = keys"
    using assms(1) by simp
  then have "distinct (map fst (zip keys values))"
    using assms(2) by simp
  then show ?thesis
    using assms(1) by (simp add: indexed_entries Object_fromEntries_distinct)
qed

lemma hashSettled_distinct:
  assumes "distinct (Object_keys d)"
  shows "hashSettled d = map (\<lambda>(k, f). (k, settle f)) d"
proof -
  have "zip (map fst d) (map settle (map snd d)) = map (\<lambda>(k, f). (k, settle f)) d"
    by (induction d) auto
  then show ?thesis
    using assms reassociate [of "Promise_allSettled (Object_values d)" "Object_keys d"]
    by (simp add: hashSettled_def Promise_allSettled_def Object_keys_def Object_values_def)
qed

lemma Promise_all_length: "Promise_all fs = Inr vs \<Longrightarrow> length vs = length fs"
  by (induction fs arbitrary: vs rule: Promise_all.induct) (auto split: sum.splits)

lemma Promise_all_fulfils: "list_all fulfils fs \<Longrightarrow> \<exists>vs. Promise_all fs = Inr vs"
  by (induction fs rule: Promise_all.induct) (auto split: sum.splits)

lemma Promise_all_rejects: "\<not> list_all fulfils fs \<Longrightarrow> \<exists>reason. Promise_all fs = Inl reason"
  by (induction fs rule: Promise_all.induct) (auto split: sum.splits)

section \<open>Settlement of the empty mapping\<close>

text \<open>
  Claim C8. For the empty Field Mapping both settlement policies succeed with the empty
  result: fail-fast settlement (\<open>hash\<close>) fulfils with the empty mapping, and settle-each
  settlement (\<open>hashSettled\<close>) gives the empty mapping of settlement records.
\<close>

theorem empty_mapping_settles: "hash [] = Inr [] \<and> hashSettled [] = []"
  by (simp add: hash_def hashSettled_def Object_values_def Object_keys_def
      Promise_allSettled_def Object_fromEntries_def enumerate_eq_zip)

section \<open>Construction of responses\<close>

lemma same_header_name_refl [simp]: "same_header_name n n"
  by (simp add: same_header_name_def)

lemma Headers_get_present:
  "(n, v) \<in> set hs \<Longrightarrow> Headers_get hs n \<noteq> None"
proof -
  assume "(n, v) \<in> set hs"
  then have "(n, v) \<in> set (filter (\<lambda>(n', v'). same_header_name n' n) hs)"
    by simp
  then have "filter (\<lambda>(n', v'). same_header_name n' n) hs \<noteq> []"
    by (metis empty_iff empty_set)
  then show ?thesis
    by (simp add: Headers_get_def split: list.splits)
qed

lemma set_prop_member: "(k, v) \<in> set (set_prop obj k v)"
  by (force simp: set_prop_def image_iff)

lemma set_prop_others:
  "(k', v') \<in> set obj \<Longrightarrow> k' \<noteq> k \<Longrightarrow> (k', v') \<in> set (set_prop obj k v)"
  by (force simp: set_prop_def image_iff)

lemma set_prop_valid:
  "list_all valid_entry obj \<Longrightarrow> valid_entry (k, v) \<Longrightarrow> list_all valid_entry (set_prop obj k v)"
  by (auto simp: set_prop_def list_all_iff valid_entry_def)

lemma content_type_valid:
  "valid_entry (''Content-Type'', ''application/json; charset=utf-8'')"
  by code_simp

lemma location_valid: "valid_header_name ''Location''"
  by code_simp

lemma headers_accepted_none: "headers_accepted None"
  by code_simp

lemma headers_accepted_record:
  "init_headers c = Some (HeadersRecord entries) \<Longrightarrow> list_all valid_entry entries \<Longrightarrow>
   headers_accepted (Some c)"
  by (simp add: headers_accepted_def json_headers_def set_prop_valid content_type_valid)

lemma makeResponse_result:
  "makeResponse status b i w =
     (if headers_accepted i
      then (Inr (length (responses w)),
            w\<lparr>responses := responses w @
               [\<lparr>resp_status = status,
                 resp_statusText = (case init_statusText (spread_init i) of None \<Rightarrow> [] | Some t \<Rightarrow> t),
                 resp_headers = json_headers i,
                 resp_body = b, resp_then = None\<rparr>]\<rparr>)
      else (Inl TypeError, w))"
proof -
  have "Headers_get (json_headers i) ''Content-Type'' \<noteq> None"
    unfolding json_headers_def by (rule Headers_get_present) (rule set_prop_member)
  then show ?thesis
    by (cases b)
      (auto simp: makeResponse_def Response_new_def Headers_new_def Let_def
        headers_accepted_def json_headers_def)
qed

lemma responseFunction_result:
  "responseFunction status d i w =
     (if headers_accepted i
      then (Inr (length (responses w)),
            w\<lparr>responses := responses w @
               [\<lparr>resp_status = status,
                 resp_statusText = (case init_statusText (spread_init i) of None \<Rightarrow> [] | Some t \<Rightarrow> t),
                 resp_headers = json_headers i,
                 resp_body = StreamBody (length (streams w)),
                 resp_then = Some (Then status d i)\<rparr>],
              streams := streams w @ [\<lparr>chunks = [], ended = False\<rparr>],
              reactions := reactions w @ [FillStream (length (streams w)) d]\<rparr>)
      else (Inl TypeError,
            w\<lparr>streams := streams w @ [\<lparr>chunks = [], ended = False\<rparr>],
              reactions := reactions w @ [FillStream (length (streams w)) d]\<rparr>))"
  by (simp add: responseFunction_def Readable_new_def makeResponse_result set_then_def)

lemma responseFunction_returned:
  "responseFunction status d i w = (Inr r, w1) \<Longrightarrow> headers_accepted i"
  by (simp add: responseFunction_result split: if_splits)

lemma mapping_operation_bound:
  "(code, operation) \<in> set mapping_operations \<Longrightarrow> operation = responseFunction code"
  by (auto simp: mapping_operations_def ok_def created_def resetContent_def partialContent_def
      badRequest_def unauthorized_def forbidden_def notFound_def methodNotAllowed_def
      notAcceptable_def conflict_def gone_def preconditionFailed_def expectationFailed_def
      teapot_def preconditionRequired_def tooManyRequests_def serverError_def
      notImplemented_def serviceUnavailable_def)

lemma call_replacer_object [simp]: "call_replacer rep key (JObj props) = JObj props"
  by (cases rep) (simp_all add: errorReplacer_def)

lemma stringify_object: "JSON_stringify rep (JObj props) \<noteq> None"
  by (simp add: JSON_stringify_def SerializeJSONProperty.simps)

lemma run_reaction_frame:
  "responses (run_reaction rc w) = responses w \<and> reactions (run_reaction rc w) = reactions w
   \<and> length (streams (run_reaction rc w)) = length (streams w)"
  by (cases rc) (simp add: push_null_def push_chunk_def Let_def split: option.splits)

lemma fold_run_reaction_frame:
  "responses (fold run_reaction rcs w) = responses w \<and>
   reactions (fold run_reaction rcs w) = reactions w \<and>
   length (streams (fold run_reaction rcs w)) = length (streams w)"
  by (induction rcs arbitrary: w) (simp_all add: run_reaction_frame)

lemma responses_run_reactions [simp]: "responses (run_reactions w) = responses w"
  by (simp add: run_reactions_def fold_run_reaction_frame)

lemma response_then_result:
  assumes "headers_accepted i"
  shows "response_then status d i cb eb w =
     (case hash d of
        Inr resolved \<Rightarrow>
          (cb (length (responses w)),
           snd (makeResponse status (as_body (JSON_stringify NoReplacer (JObj resolved))) i w))
      | Inl reason \<Rightarrow>
          (eb (ThrownResponse (length (responses w))),
           snd (makeResponse 500 (as_body (JSON_stringify ErrorReplacer (JObj (hashSettled d)))) i w)))"
  using assms
  by (simp add: response_then_def response_catch_def makeResponse_result Let_def split: sum.splits)

lemma await_constructed:
  assumes "responseFunction status d i w = (Inr r, w1)"
      and "w1' = w1 \<or> w1' = run_reactions w1"
  shows "await r w1' = response_then status d i Inr Inl w1'"
    and "r = length (responses w)"
    and "responses w1' = responses w1"
    and "length (responses w1) = Suc r"
    and "resp_status (responses w1 ! r) = status"
    and "headers_accepted i"
proof -
  from assms(1) show ok: "headers_accepted i"
    by (rule responseFunction_returned)
  from assms(1) ok show r: "r = length (responses w)"
    by (simp add: responseFunction_result)
  from assms(2) show same: "responses w1' = responses w1"
    by auto
  from assms(1) ok show len: "length (responses w1) = Suc r"
    by (auto simp: responseFunction_result)
  from assms(1) ok show "resp_status (responses w1 ! r) = status"
    by (auto simp: responseFunction_result)
  from assms(1) ok have "resp_then (responses w1 ! r) = Some (Then status d i)"
    by (auto simp: responseFunction_result)
  then show "await r w1' = response_then status d i Inr Inl w1'"
    using same len by (simp add: await_def)
qed

lemma Promise_all_fulfilled:
  "list_all2 fulfilled_as d resolved \<Longrightarrow> Promise_all (map snd d) = Inr (map snd resolved)"
proof (induction d resolved rule: list_all2_induct)
  case Nil
  then show ?case by simp
next
  case (Cons e d e' resolved)
  then show ?case
    by (cases e; cases e') (auto simp: fulfilled_as_def)
qed

lemma hash_fulfilled:
  assumes "distinct (Object_keys d)" and "list_all2 fulfilled_as d resolved"
  shows "hash d = Inr resolved"
proof -
  have keys: "map fst resolved = map fst d"
    using assms(2) by (induction d resolved rule: list_all2_induct) (auto simp: fulfilled_as_def)
  have len: "length resolved = length d"
    using assms(2) by (simp add: list_all2_lengthD)
  have "zip (map fst d) (map snd resolved) = resolved"
    using keys by (metis zip_map_fst_snd)
  then show ?thesis
    using assms(1) len Promise_all_fulfilled [OF assms(2)]
      reassociate [of "map snd resolved" "map fst d"]
    by (simp add: hash_def Object_values_def Object_keys_def)
qed

section \<open>Awaiting a deferred response\<close>

text \<open>
  Claim C1. For every Field Mapping whose pending computations all fulfil, awaiting the
  response returned by a mapping-based operation yields a new response whose status is
  the operation's fixed status code and whose body is the JSON encoding of the mapping
  with each pending computation replaced by its fulfilled value, plain values passed
  through unchanged. The mapping \<open>resolved\<close> is that replacement; the await may come
  before or after the provisional body has been filled.
\<close>

theorem awaited_body_of_fulfilled_mapping:
  assumes "(code, operation) \<in> set mapping_operations"
      and "distinct (Object_keys d)"
      and "list_all2 fulfilled_as d resolved"
      and "operation d i w = (Inr r, w1)"
      and "w1' = w1 \<or> w1' = run_reactions w1"
      and "await r w1' = (res, w2)"
  shows "\<exists>r'. res = Inr r' \<and> r' \<noteq> r \<and> r' = length (responses w1) \<and>
              length (responses w2) = Suc r' \<and>
              resp_status (responses w2 ! r') = code \<and>
              resp_body (responses w2 ! r') = as_body (JSON_stringify NoReplacer (JObj resolved)) \<and>
              body_text w2 r' = JSON_stringify NoReplacer (JObj resolved) \<and>
              JSON_stringify NoReplacer (JObj resolved) \<noteq> None"
proof -
  from assms(1,4) have built: "responseFunction code d i w = (Inr r, w1)"
    using mapping_operation_bound by blast
  note facts = await_constructed [OF built assms(5)]
  have "hash d = Inr resolved"
    using assms(2,3) by (rule hash_fulfilled)
  with assms(6) facts(1) have res: "res = Inr (length (responses w1'))"
    and w2: "w2 = snd (makeResponse code (as_body (JSON_stringify NoReplacer (JObj resolved))) i w1')"
    by (simp_all add: response_then_result [OF facts(6)])
  obtain encoded where encoded: "JSON_stringify NoReplacer (JObj resolved) = Some encoded"
    using stringify_object [of NoReplacer resolved] by auto
  show ?thesis
    using res w2 facts(2-4,6) encoded
    by (simp add: makeResponse_result body_text_def nth_append)
qed

theorem awaited_body_of_fulfilled_mapping_witness:
  "fst (ok [(''a'', Pending (Resolves (JStr ''a''))), (''b'', Pending (Resolves (JStr ''b''))),
            (''c'', Plain (JStr ''c''))] None empty_world) = Inr 0 \<and>
   (\<exists>r'. fst (await 0 (snd (ok [(''a'', Pending (Resolves (JStr ''a''))),
                                  (''b'', Pending (Resolves (JStr ''b''))),
                                  (''c'', Plain (JStr ''c''))] None empty_world))) = Inr r' \<and>
         r' \<noteq> 0 \<and>
         resp_status (responses (snd (await 0 (snd (ok [(''a'', Pending (Resolves (JStr ''a''))),
                                  (''b'', Pending (Resolves (JStr ''b''))),
                                  (''c'', Plain (JStr ''c''))] None empty_world)))) ! r') = 200 \<and>
         body_text (snd (await 0 (snd (ok [(''a'', Pending (Resolves (JStr ''a''))),
                                  (''b'', Pending (Resolves (JStr ''b''))),
                                  (''c'', Plain (JStr ''c''))] None empty_world)))) r'
           = Some ''{\"a\":\"a\",\"b\":\"b\",\"c\":\"c\"}'')"
proof -
  let ?d = "[(''a'', Pending (Resolves (JStr ''a''))), (''b'', Pending (Resolves (JStr ''b''))),
             (''c'', Plain (JStr ''c''))]"
  let ?resolved = "[(''a'', JStr ''a''), (''b'', JStr ''b''), (''c'', JStr ''c'')]"
  let ?w1 = "snd (ok ?d None empty_world)"
  have h1: "(200, ok) \<in> set mapping_operations"
    by (simp add: mapping_operations_def)
  have h2: "distinct (Object_keys ?d)"
    by (simp add: Object_keys_def)
  have h3: "list_all2 fulfilled_as ?d ?resolved"
    by (simp add: fulfilled_as_def)
  have h4: "ok ?d None empty_world = (Inr 0, ?w1)"
    by (simp add: ok_def responseFunction_result headers_accepted_none empty_world_def)
  have returned: "fst (ok ?d None empty_world) = Inr 0"
    by (simp add: ok_def responseFunction_result headers_accepted_none empty_world_def)
  have h5: "?w1 = ?w1 \<or> ?w1 = run_reactions ?w1"
    by simp
  have h6: "await 0 ?w1 = (fst (await 0 ?w1), snd (await 0 ?w1))"
    by simp
  have enc: "JSON_stringify NoReplacer (JObj ?resolved) = Some ''{\"a\":\"a\",\"b\":\"b\",\"c\":\"c\"}''"
    by code_simp
  show ?thesis
    using awaited_body_of_fulfilled_mapping [OF h1 h2 h3 h4 h5 h6] enc returned by auto
qed

lemma settle_cases:
  "settle f = (case f of
       Plain v \<Rightarrow> JObj [(''status'', JStr ''fulfilled''), (''value'', v)]
     | Pending (Resolves v) \<Rightarrow> JObj [(''status'', JStr ''fulfilled''), (''value'', v)]
     | Pending (Rejects reason) \<Rightarrow> JObj [(''status'', JStr ''rejected''), (''reason'', reason)])"
  by (cases f rule: settle.cases) (simp_all add: fulfilled_record_def rejected_record_def)

lemma hash_rejected:
  "\<not> list_all fulfils (Object_values d) \<Longrightarrow> \<exists>reason. hash d = Inl reason"
  using Promise_all_rejects [of "Object_values d"] by (auto simp: hash_def)

text \<open>
  Claim C2. For every Field Mapping in which at least one pending computation fails,
  awaiting the response returned by a mapping-based operation rejects, and the value it
  rejects with is a new response with status 500 whose body holds, for every key of the
  mapping, exactly one settlement record: \<open>{status: "fulfilled", value}\<close> for a key that
  fulfilled and \<open>{status: "rejected", reason}\<close> for a key that failed.
\<close>

theorem awaited_rejection_of_failing_mapping:
  assumes "(code, operation) \<in> set mapping_operations"
      and "distinct (Object_keys d)"
      and "\<not> list_all fulfils (Object_values d)"
      and "operation d i w = (Inr r, w1)"
      and "w1' = w1 \<or> w1' = run_reactions w1"
      and "await r w1' = (res, w2)"
  shows "\<exists>r'. res = Inl (ThrownResponse r') \<and> r' \<noteq> r \<and> r' = length (responses w1) \<and>
              length (responses w2) = Suc r' \<and>
              resp_status (responses w2 ! r') = 500 \<and>
              body_text w2 r' =
                JSON_stringify ErrorReplacer
                  (JObj (map (\<lambda>(k, f). (k,
                     case f of
                       Plain v \<Rightarrow> JObj [(''status'', JStr ''fulfilled''), (''value'', v)]
                     | Pending (Resolves v) \<Rightarrow>
                         JObj [(''status'', JStr ''fulfilled''), (''value'', v)]
                     | Pending (Rejects reason) \<Rightarrow>
                         JObj [(''status'', JStr ''rejected''), (''reason'', reason)])) d)) \<and>
              body_text w2 r' \<noteq> None"
proof -
  let ?records =
    "map (\<lambda>(k, f). (k,
       case f of
         Plain v \<Rightarrow> JObj [(''status'', JStr ''fulfilled''), (''value'', v)]
       | Pending (Resolves v) \<Rightarrow> JObj [(''status'', JStr ''fulfilled''), (''value'', v)]
       | Pending (Rejects reason) \<Rightarrow>
           JObj [(''status'', JStr ''rejected''), (''reason'', reason)])) d"
  from assms(1,4) have built: "responseFunction code d i w = (Inr r, w1)"
    using mapping_operation_bound by blast
  note facts = await_constructed [OF built assms(5)]
  obtain reason where "hash d = Inl reason"
    using hash_rejected [OF assms(3)] by auto
  with assms(6) facts(1) have res: "res = Inl (ThrownResponse (length (responses w1')))"
    and w2: "w2 = snd (makeResponse 500
                         (as_body (JSON_stringify ErrorReplacer (JObj (hashSettled d)))) i w1')"
    by (simp_all add: response_then_result [OF facts(6)])
  have "hashSettled d = map (\<lambda>(k, f). (k, settle f)) d"
    using assms(2) by (rule hashSettled_distinct)
  also have "\<dots> = ?records"
    by (simp add: settle_cases)
  finally have settled: "hashSettled d = ?records" .
  obtain encoded where encoded: "JSON_stringify ErrorReplacer (JObj ?records) = Some encoded"
    using stringify_object [of ErrorReplacer ?records] by auto
  have "res = Inl (ThrownResponse (length (responses w1))) \<and> length (responses w1) \<noteq> r \<and>
        length (responses w2) = Suc (length (responses w1)) \<and>
        resp_status (responses w2 ! length (responses w1)) = 500 \<and>
        body_text w2 (length (responses w1)) = JSON_stringify ErrorReplacer (JObj ?records) \<and>
        body_text w2 (length (responses w1)) \<noteq> None"
    using res w2 facts(2-4,6) encoded
    by (simp add: makeResponse_result body_text_def nth_append settled)
  then show ?thesis
    by blast
qed

theorem awaited_rejection_of_failing_mapping_witness:
  "fst (ok [(''a'', Pending (Resolves (JStr ''a''))), (''b'', Pending (Rejects (JStr ''b''))),
            (''c'', Pending (Rejects (JStr ''c'')))] None empty_world) = Inr 0 \<and>
   (\<exists>r'. fst (await 0 (snd (ok [(''a'', Pending (Resolves (JStr ''a''))),
                                  (''b'', Pending (Rejects (JStr ''b''))),
                                  (''c'', Pending (Rejects (JStr ''c'')))] None empty_world)))
             = Inl (ThrownResponse r') \<and>
         r' \<noteq> 0 \<and>
         resp_status (responses (snd (await 0 (snd (ok [(''a'', Pending (Resolves (JStr ''a''))),
                                  (''b'', Pending (Rejects (JStr ''b''))),
                                  (''c'', Pending (Rejects (JStr ''c'')))] None empty_world)))) ! r') = 500 \<and>
         body_text (snd (await 0 (snd (ok [(''a'', Pending (Resolves (JStr ''a''))),
                                  (''b'', Pending (Rejects (JStr ''b''))),
                                  (''c'', Pending (Rejects (JStr ''c'')))] None empty_world)))) r'
           = Some ''{\"a\":{\"status\":\"fulfilled\",\"value\":\"a\"},\"b\":{\"status\":\"rejected\",\"reason\":\"b\"},\"c\":{\"status\":\"rejected\",\"reason\":\"c\"}}'')"
proof -
  let ?d = "[(''a'', Pending (Resolves (JStr ''a''))), (''b'', Pending (Rejects (JStr ''b''))),
             (''c'', Pending (Rejects (JStr ''c'')))]"
  let ?w1 = "snd (ok ?d None empty_world)"
  have h1: "(200, ok) \<in> set mapping_operations"
    by (simp add: mapping_operations_def)
  have h2: "distinct (Object_keys ?d)"
    by (simp add: Object_keys_def)
  have h3: "\<not> list_all fulfils (Object_values ?d)"
    by (simp add: Object_values_def)
  have h4: "ok ?d None empty_world = (Inr 0, ?w1)"
    by (simp add: ok_def responseFunction_result headers_accepted_none empty_world_def)
  have returned: "fst (ok ?d None empty_world) = Inr 0"
    by (simp add: ok_def responseFunction_result headers_accepted_none empty_world_def)
  have h5: "?w1 = ?w1 \<or> ?w1 = run_reactions ?w1"
    by simp
  have h6: "await 0 ?w1 = (fst (await 0 ?w1), snd (await 0 ?w1))"
    by simp
  have enc: "JSON_stringify ErrorReplacer
               (JObj [(''a'', JObj [(''status'', JStr ''fulfilled''), (''value'', JStr ''a'')]),
                      (''b'', JObj [(''status'', JStr ''rejected''), (''reason'', JStr ''b'')]),
                      (''c'', JObj [(''status'', JStr ''rejected''), (''reason'', JStr ''c'')])])
             = Some ''{\"a\":{\"status\":\"fulfilled\",\"value\":\"a\"},\"b\":{\"status\":\"rejected\",\"reason\":\"b\"},\"c\":{\"status\":\"rejected\",\"reason\":\"c\"}}''"
    by code_simp
  show ?thesis
    using awaited_rejection_of_failing_mapping [OF h1 h2 h3 h4 h5 h6] enc returned by auto
qed

section \<open>The original response object\<close>

text \<open>
  Claim C7. Awaiting a Deferred Response never mutates the response object constructed
  first: for every Field Mapping, failing computations included, after the await the
  original response is as it was, its status still the one fixed at construction, and
  the value the await produces (the resolved response or the rejection response) is a
  fresh response object, distinct from the original.
\<close>

theorem await_leaves_original_untouched:
  assumes "responseFunction status d i w = (Inr r, w1)"
      and "w1' = w1 \<or> w1' = run_reactions w1"
      and "await r w1' = (res, w2)"
  shows "responses w2 ! r = responses w1 ! r \<and>
         resp_status (responses w2 ! r) = status \<and>
         take (length (responses w1)) (responses w2) = responses w1 \<and>
         streams w2 = streams w1' \<and>
         (\<exists>r'. (res = Inr r' \<or> res = Inl (ThrownResponse r')) \<and> r' = length (responses w1) \<and>
               r' \<noteq> r \<and> length (responses w2) = Suc r')"
proof -
  note facts = await_constructed [OF assms(1,2)]
  show ?thesis
  proof (cases "hash d")
    case (Inl reason)
    with assms(3) facts(1) have "res = Inl (ThrownResponse (length (responses w1')))"
      and "w2 = snd (makeResponse 500
                      (as_body (JSON_stringify ErrorReplacer (JObj (hashSettled d)))) i w1')"
      by (simp_all add: response_then_result [OF facts(6)])
    then show ?thesis
      using facts(2-6) by (simp add: makeResponse_result nth_append)
  next
    case (Inr resolved)
    with assms(3) facts(1) have "res = Inr (length (responses w1'))"
      and "w2 = snd (makeResponse status
                      (as_body (JSON_stringify NoReplacer (JObj resolved))) i w1')"
      by (simp_all add: response_then_result [OF facts(6)])
    then show ?thesis
      using facts(2-6) by (simp add: makeResponse_result nth_append)
  qed
qed

theorem await_leaves_original_untouched_witness:
  "fst (responseFunction 200 [(''a'', Pending (Rejects (JStr ''a'')))] None empty_world) = Inr 0 \<and>
   responses (snd (await 0 (run_reactions (snd (responseFunction 200 [(''a'', Pending (Rejects (JStr ''a'')))] None empty_world))))) ! 0
     = responses (snd (responseFunction 200 [(''a'', Pending (Rejects (JStr ''a'')))] None empty_world)) ! 0 \<and>
   resp_status (responses (snd (await 0 (run_reactions (snd (responseFunction 200 [(''a'', Pending (Rejects (JStr ''a'')))] None empty_world))))) ! 0) = 200 \<and>
   fst (await 0 (run_reactions (snd (responseFunction 200 [(''a'', Pending (Rejects (JStr ''a'')))] None empty_world))))
     = Inl (ThrownResponse 1)"
proof -
  let ?d = "[(''a'', Pending (Rejects (JStr ''a'')))]"
  let ?w1 = "snd (responseFunction 200 ?d None empty_world)"
  let ?w1' = "run_reactions ?w1"
  have h1: "responseFunction 200 ?d None empty_world = (Inr 0, ?w1)"
    by (simp add: responseFunction_result headers_accepted_none empty_world_def)
  have h2: "?w1' = ?w1 \<or> ?w1' = run_reactions ?w1"
    by simp
  have h3: "await 0 ?w1' = (fst (await 0 ?w1'), snd (await 0 ?w1'))"
    by simp
  have len: "length (responses ?w1) = 1"
    by (simp add: responseFunction_result headers_accepted_none empty_world_def)
  have "hash ?d = Inl (JStr ''a'')"
    by (simp add: hash_def Object_values_def)
  then have rej: "\<forall>r'. fst (await 0 ?w1') \<noteq> Inr r'"
    using await_constructed(1) [OF h1 h2]
    by (simp add: response_then_result [OF headers_accepted_none])
  have returned: "fst (responseFunction 200 ?d None empty_world) = Inr 0"
    by (simp add: responseFunction_result headers_accepted_none empty_world_def)
  show ?thesis
    using await_leaves_original_untouched [OF h1 h2 h3] len rej returned by auto
qed

section \<open>Redirects\<close>

lemma redirect_operation_bound:
  "(code, operation) \<in> set redirect_operations \<Longrightarrow> operation url extra = redirectFunction code url"
  by (auto simp: redirect_operations_def movedPermanently_def found_def seeOther_def
      notModified_def temporaryRedirect_def permanentRedirect_def)

lemma redirectFunction_result:
  "redirectFunction status url w =
     (if valid_header_value url
      then (Inr (length (responses w)),
            w\<lparr>responses := responses w @
               [\<lparr>resp_status = status, resp_statusText = [],
                 resp_headers = [(''Location'', url)], resp_body = NullBody, resp_then = None\<rparr>]\<rparr>)
      else (Inl TypeError, w))"
  by (simp add: redirectFunction_def Response_new_def Headers_new_def valid_entry_def location_valid)

text \<open>
  Claim C5 says that every redirect operation returns its response for every URL string.
  The URL goes into the \<open>Location\<close> header as it is, and the constructor of the headers
  throws on a string that holds a character not allowed in a header value: for
  \<open>found\<close> of the string made of \<open>a\<close>, a line feed and \<open>b\<close> there is a
  \<open>TypeError\<close> and no response.
\<close>

theorem redirect_throws_on_invalid_url:
  "fst (found (''a'' @ [CHR 0x0A] @ ''b'') None empty_world) = Inl TypeError \<and>
   responses (snd (found (''a'' @ [CHR 0x0A] @ ''b'') None empty_world)) = []"
  by code_simp

text \<open>
  Claim C5, amended. For every URL string that is a valid header value (it holds no
  control character but the tab, and no DEL; a JavaScript string must also stay within
  the code units up to 0xFF, which is all that a string of the embedding has), every
  redirect operation
  (\<open>movedPermanently\<close>, \<open>found\<close>, \<open>seeOther\<close>, \<open>notModified\<close>, \<open>temporaryRedirect\<close>,
  \<open>permanentRedirect\<close>) returns a response with no body, a \<open>Location\<close> header equal to the
  URL string given, and the status code fixed for the operation (301, 302, 303, 304, 307
  and 308). For any other string the operation throws a \<open>TypeError\<close> and builds no
  response.
\<close>

theorem redirect_response:
  assumes "(code, operation) \<in> set redirect_operations"
      and "operation url extra w = (res, w')"
  shows "(valid_header_value url \<longrightarrow>
            res = Inr (length (responses w)) \<and>
            responses w' = responses w @
              [\<lparr>resp_status = code, resp_statusText = [],
                resp_headers = [(''Location'', url)], resp_body = NullBody, resp_then = None\<rparr>] \<and>
            resp_status (responses w' ! length (responses w)) = code \<and>
            resp_body (responses w' ! length (responses w)) = NullBody \<and>
            body_text w' (length (responses w)) = None \<and>
            Headers_get (resp_headers (responses w' ! length (responses w))) ''Location'' = Some url) \<and>
         (\<not> valid_header_value url \<longrightarrow> res = Inl TypeError \<and> w' = w)"
proof -
  from assms have "redirectFunction code url w = (res, w')"
    using redirect_operation_bound by metis
  then show ?thesis
    by (auto simp: redirectFunction_result body_text_def Headers_get_def split: if_splits)
qed

theorem redirect_response_witness:
  "valid_header_value ''https://www.example.com'' \<and>
   map fst redirect_operations = [301, 302, 303, 304, 307, 308] \<and>
   fst (movedPermanently ''https://www.example.com'' None empty_world) = Inr 0 \<and>
   resp_status (responses (snd (movedPermanently ''https://www.example.com'' None empty_world)) ! 0) = 301 \<and>
   resp_body (responses (snd (movedPermanently ''https://www.example.com'' None empty_world)) ! 0) = NullBody \<and>
   Headers_get (resp_headers (responses (snd (movedPermanently ''https://www.example.com'' None empty_world)) ! 0))
     ''location'' = Some ''https://www.example.com'' \<and>
   \<not> valid_header_value (''a'' @ [CHR 0x0A] @ ''b'') \<and>
   fst (found (''a'' @ [CHR 0x0A] @ ''b'') None empty_world) = Inl TypeError"
proof -
  let ?X = "movedPermanently ''https://www.example.com'' None empty_world"
  let ?Y = "found (''a'' @ [CHR 0x0A] @ ''b'') None empty_world"
  have h1: "(301, movedPermanently) \<in> set redirect_operations"
    by (simp add: redirect_operations_def)
  have h2: "?X = (fst ?X, snd ?X)"
    by simp
  have g1: "(302, found) \<in> set redirect_operations"
    by (simp add: redirect_operations_def)
  have g2: "?Y = (fst ?Y, snd ?Y)"
    by simp
  have valid: "valid_header_value ''https://www.example.com''"
    by code_simp
  have invalid: "\<not> valid_header_value (''a'' @ [CHR 0x0A] @ ''b'')"
    by code_simp
  have looked_up: "Headers_get [(''Location'', ''https://www.example.com'')] ''location''
        = Some ''https://www.example.com''"
    by code_simp
  have "length (responses empty_world) = 0"
    by (simp add: empty_world_def)
  then show ?thesis
    using redirect_response [OF h1 h2] redirect_response [OF g1 g2] valid invalid looked_up
    by (simp add: redirect_operations_def)
qed

lemma noContent_result:
  "noContent i w =
     (if list_all valid_entry (header_entries (init_headers (spread_init i)))
      then (Inr (length (responses w)),
            w\<lparr>responses := responses w @
               [\<lparr>resp_status = 204,
                 resp_statusText = (case init_statusText (spread_init i) of None \<Rightarrow> [] | Some t \<Rightarrow> t),
                 resp_headers = header_entries (init_headers (spread_init i)),
                 resp_body = NullBody, resp_then = None\<rparr>]\<rparr>)
      else (Inl TypeError, w))"
  by (simp add: noContent_def Response_new_def Headers_new_def)

section \<open>The configuration object\<close>

text \<open>
  Claim C6 says that every named operation, the redirects too, takes a configuration
  object whose header entries appear in the response. A redirect does not: the entry
  \<open>X-Trace\<close> passed to \<open>movedPermanently\<close> is in no header of the response. Nor does a
  mapping-based operation for every configuration: the same entry given to \<open>ok\<close> in a
  \<open>Headers\<close> instance, or in an array of pairs, is not copied as an entry by the spread
  and is in no header either.
\<close>

theorem supplied_headers_missing:
  "fst (movedPermanently ''https://www.example.com''
        (Some \<lparr>init_status = None, init_statusText = None,
                init_headers = Some (HeadersRecord [(''X-Trace'', ''1'')])\<rparr>) empty_world) = Inr 0 \<and>
   Headers_get (resp_headers (responses (snd (movedPermanently ''https://www.example.com''
        (Some \<lparr>init_status = None, init_statusText = None,
                init_headers = Some (HeadersRecord [(''X-Trace'', ''1'')])\<rparr>) empty_world)) ! 0))
     ''X-Trace'' = None \<and>
   fst (ok [] (Some \<lparr>init_status = None, init_statusText = None,
                init_headers = Some (HeadersInstance [(''X-Trace'', ''1'')])\<rparr>) empty_world) = Inr 0 \<and>
   Headers_get (resp_headers (responses (snd (ok []
        (Some \<lparr>init_status = None, init_statusText = None,
                init_headers = Some (HeadersInstance [(''X-Trace'', ''1'')])\<rparr>) empty_world)) ! 0))
     ''X-Trace'' = None \<and>
   fst (ok [] (Some \<lparr>init_status = None, init_statusText = None,
                init_headers = Some (HeadersPairs [(''X-Trace'', ''1'')])\<rparr>) empty_world) = Inr 0 \<and>
   Headers_get (resp_headers (responses (snd (ok []
        (Some \<lparr>init_status = None, init_statusText = None,
                init_headers = Some (HeadersPairs [(''X-Trace'', ''1'')])\<rparr>) empty_world)) ! 0))
     ''X-Trace'' = None"
  by code_simp

text \<open>
  Claim C6, amended. A mapping-based operation takes an optional configuration object as
  its second argument; where that gives its headers as a plain object of valid entries
  the operation returns a response, and every entry given, other than \<open>Content-Type\<close>, is
  in the headers of the response next to the default \<open>Content-Type\<close>. \<open>noContent\<close> takes
  the configuration as its only argument; where its headers are valid it returns a
  response that carries the headers given, with no default. A redirect operation has the
  URL as its only parameter: what else is passed changes nothing, and its response
  carries \<open>Location\<close> alone.
\<close>

theorem configured_headers_appear:
  "((code, operation) \<in> set mapping_operations \<longrightarrow>
      init_headers c = Some (HeadersRecord entries) \<longrightarrow>
      (list_all valid_entry entries \<longrightarrow>
         fst (operation d (Some c) w) = Inr (length (responses w))) \<and>
      (operation d (Some c) w = (Inr r, w1) \<longrightarrow> (k, v) \<in> set entries \<longrightarrow> k \<noteq> ''Content-Type'' \<longrightarrow>
         (k, v) \<in> set (resp_headers (responses w1 ! r)) \<and>
         (''Content-Type'', ''application/json; charset=utf-8'')
           \<in> set (resp_headers (responses w1 ! r))))
   \<and> (list_all valid_entry (header_entries (init_headers c)) \<longrightarrow>
         fst (noContent (Some c) w) = Inr (length (responses w)))
   \<and> (noContent (Some c) w = (Inr r', w2) \<longrightarrow>
         resp_headers (responses w2 ! r') = header_entries (init_headers c))
   \<and> ((code', redirect) \<in> set redirect_operations \<longrightarrow>
        redirect url extra w = redirect url None w \<and>
        (redirect url extra w = (Inr r'', w3) \<longrightarrow>
           resp_headers (responses w3 ! r'') = [(''Location'', url)]))"
proof (intro conjI impI)
  assume op: "(code, operation) \<in> set mapping_operations"
    and hs: "init_headers c = Some (HeadersRecord entries)"
  have bound: "operation = responseFunction code"
    using op by (rule mapping_operation_bound)
  show "fst (operation d (Some c) w) = Inr (length (responses w))"
    if "list_all valid_entry entries"
    using headers_accepted_record [OF hs that] by (simp add: bound responseFunction_result)
  assume built: "operation d (Some c) w = (Inr r, w1)"
    and kv: "(k, v) \<in> set entries" and k: "k \<noteq> ''Content-Type''"
  from built have accepted: "headers_accepted (Some c)"
    unfolding bound by (rule responseFunction_returned)
  from built accepted have headers: "resp_headers (responses w1 ! r) = json_headers (Some c)"
    by (auto simp: bound responseFunction_result)
  show "(k, v) \<in> set (resp_headers (responses w1 ! r))"
    using kv k by (simp add: headers json_headers_def hs set_prop_others)
  show "(''Content-Type'', ''application/json; charset=utf-8'') \<in> set (resp_headers (responses w1 ! r))"
    by (simp add: headers json_headers_def set_prop_member)
next
  show "fst (noContent (Some c) w) = Inr (length (responses w))"
    if "list_all valid_entry (header_entries (init_headers c))"
    using that by (simp add: noContent_result)
next
  assume "noContent (Some c) w = (Inr r', w2)"
  then show "resp_headers (responses w2 ! r') = header_entries (init_headers c)"
    by (auto simp: noContent_result split: if_splits)
next
  assume table: "(code', redirect) \<in> set redirect_operations"
  show "redirect url extra w = redirect url None w"
    by (simp add: redirect_operation_bound [OF table])
  assume "redirect url extra w = (Inr r'', w3)"
  then have "redirectFunction code' url w = (Inr r'', w3)"
    by (simp add: redirect_operation_bound [OF table])
  then show "resp_headers (responses w3 ! r'') = [(''Location'', url)]"
    by (auto simp: redirectFunction_result split: if_splits)
qed

theorem configured_headers_appear_witness:
  "fst (notFound [] (Some
        \<lparr>init_status = None, init_statusText = None,
         init_headers = Some (HeadersRecord [(''X-Trace'', ''1'')])\<rparr>) empty_world) = Inr 0 \<and>
   (''X-Trace'', ''1'') \<in> set (resp_headers (responses (snd (notFound [] (Some
        \<lparr>init_status = None, init_statusText = None,
         init_headers = Some (HeadersRecord [(''X-Trace'', ''1'')])\<rparr>) empty_world)) ! 0)) \<and>
   (''Content-Type'', ''application/json; charset=utf-8'')
      \<in> set (resp_headers (responses (snd (notFound [] (Some
        \<lparr>init_status = None, init_statusText = None,
         init_headers = Some (HeadersRecord [(''X-Trace'', ''1'')])\<rparr>) empty_world)) ! 0)) \<and>
   resp_headers (responses (snd (noContent (Some
        \<lparr>init_status = None, init_statusText = None,
         init_headers = Some (HeadersRecord [(''X-Trace'', ''1'')])\<rparr>) empty_world)) ! 0)
     = [(''X-Trace'', ''1'')] \<and>
   resp_headers (responses (snd (found ''/login'' (Some
        \<lparr>init_status = None, init_statusText = None,
         init_headers = Some (HeadersRecord [(''X-Trace'', ''1'')])\<rparr>) empty_world)) ! 0)
     = [(''Location'', ''/login'')]"
proof -
  let ?c = "\<lparr>init_status = None, init_statusText = None,
             init_headers = Some (HeadersRecord [(''X-Trace'', ''1'')])\<rparr>"
  let ?N = "notFound [] (Some ?c) empty_world"
  let ?C = "noContent (Some ?c) empty_world"
  let ?F = "found ''/login'' (Some ?c) empty_world"
  have valid: "list_all valid_entry [(''X-Trace'', ''1'')]"
    by code_simp
  have url: "valid_header_value ''/login''"
    by code_simp
  have h1: "(404, notFound) \<in> set mapping_operations"
    by (simp add: mapping_operations_def)
  have h2: "init_headers ?c = Some (HeadersRecord [(''X-Trace'', ''1'')])"
    by simp
  have h3: "?N = (Inr 0, snd ?N)"
    using headers_accepted_record [OF h2 valid]
    by (simp add: notFound_def responseFunction_result empty_world_def)
  have h4: "(''X-Trace'', ''1'') \<in> set [(''X-Trace'', ''1'')] \<and> ''X-Trace'' \<noteq> ''Content-Type''"
    by simp
  have h5: "list_all valid_entry (header_entries (init_headers ?c))"
    using valid by simp
  have h6: "?C = (Inr 0, snd ?C)"
    using valid by (simp add: noContent_result empty_world_def)
  have h7: "(302, found) \<in> set redirect_operations"
    by (simp add: redirect_operations_def)
  have h8: "?F = (Inr 0, snd ?F)"
    using url by (simp add: found_def redirectFunction_result empty_world_def)
  have len: "length (responses empty_world) = 0"
    by (simp add: empty_world_def)
  note inst = configured_headers_appear [of 404 notFound ?c "[(''X-Trace'', ''1'')]" "[]"
        empty_world 0 "snd ?N" "''X-Trace''" "''1''" 0 "snd ?C" 302 found "''/login''" "Some ?c"
        0 "snd ?F", unfolded len]
  have singleton: "header_entries (init_headers ?c) = [(''X-Trace'', ''1'')]"
    by simp
  show ?thesis
    using inst h1 h2 h3 h4 h5 h6 h7 h8 valid unfolding singleton by blast
qed

lemma filter_name_absent:
  assumes "n \<notin> set (map fst es)"
      and "\<forall>k \<in> set (map fst es). same_header_name k n \<longrightarrow> k = n"
  shows "filter (\<lambda>(n', v'). same_header_name n' n) es = []"
  using assms by (induction es) auto

lemma filter_name_overwritten:
  assumes "distinct (map fst es)" and "n \<in> set (map fst es)"
      and "\<forall>k \<in> set (map fst es). same_header_name k n \<longrightarrow> k = n"
  shows "filter (\<lambda>(n', v'). same_header_name n' n)
           (map (\<lambda>(k', v'). if k' = n then (k', v) else (k', v')) es) = [(n, v)]"
  using assms
proof (induction es)
  case Nil
  then show ?case by simp
next
  case (Cons e es)
  obtain k v0 where e: "e = (k, v0)" by (cases e)
  show ?case
  proof (cases "k = n")
    case True
    with Cons.prems(1) have absent: "n \<notin> set (map fst es)"
      by (simp add: e)
    then have same: "map (\<lambda>(k', v'). if k' = n then (k', v) else (k', v')) es = es"
      by (induction es) auto
    have "filter (\<lambda>(n', v'). same_header_name n' n) es = []"
      using absent Cons.prems(3) by (intro filter_name_absent) simp_all
    then show ?thesis
      using True by (simp add: e same)
  next
    case False
    with Cons.prems(3) have "\<not> same_header_name k n"
      by (auto simp: e)
    moreover have "filter (\<lambda>(n', v'). same_header_name n' n)
           (map (\<lambda>(k', v'). if k' = n then (k', v) else (k', v')) es) = [(n, v)]"
      using Cons.prems False by (intro Cons.IH) (simp_all add: e)
    ultimately show ?thesis
      using False by (simp add: e)
  qed
qed

lemma Headers_get_set_prop:
  assumes "distinct (map fst es)"
      and "\<forall>k \<in> set (map fst es). same_header_name k n \<longrightarrow> k = n"
  shows "Headers_get (set_prop es n v) n = Some v"
proof (cases "n \<in> set (map fst es)")
  case True
  then show ?thesis
    using filter_name_overwritten [OF assms(1) True assms(2), of v]
    by (simp add: Headers_get_def set_prop_def)
next
  case False
  then show ?thesis
    using filter_name_absent [OF False assms(2)]
    by (simp add: Headers_get_def set_prop_def)
qed

text \<open>
  Claim C10. For every mapping-based operation and every configuration object passed as
  \<open>init\<close>, one with a status or a \<open>Content-Type\<close> entry of its own included, the status
  of the response is the operation's fixed status code and its \<open>Content-Type\<close> is exactly
  \<open>application/json; charset=utf-8\<close>, the other entries of the caller being kept. The
  code writes its \<open>Content-Type\<close> after the caller's entries into a plain object, where
  names differing in case are different keys: a caller's entry \<open>content-type\<close> stays
  next to it, and the \<open>Content-Type\<close> of the response reads
  \<open>text/plain, application/json; charset=utf-8\<close>.
\<close>

theorem content_type_joined_with_caller_entry:
  "fst (ok [] (Some
        \<lparr>init_status = None, init_statusText = None,
         init_headers = Some (HeadersRecord [(''content-type'', ''text/plain'')])\<rparr>) empty_world)
     = Inr 0 \<and>
   Headers_get (resp_headers (responses (snd (ok [] (Some
        \<lparr>init_status = None, init_statusText = None,
         init_headers = Some (HeadersRecord [(''content-type'', ''text/plain'')])\<rparr>) empty_world)) ! 0))
     ''Content-Type'' = Some ''text/plain, application/json; charset=utf-8'' \<and>
   Headers_get (resp_headers (responses (snd (ok [] (Some
        \<lparr>init_status = None, init_statusText = None,
         init_headers = Some (HeadersRecord [(''content-type'', ''text/plain'')])\<rparr>) empty_world)) ! 0))
     ''Content-Type'' \<noteq> Some ''application/json; charset=utf-8''"
  by code_simp

text \<open>
  Headers given as a \<open>Headers\<close> instance are not copied by the spread, where
  \<open>noContent\<close> hands them to the constructor as they are.
\<close>

lemma headers_instance_dropped:
  "resp_headers (responses (snd (ok [] (Some
        \<lparr>init_status = None, init_statusText = None,
         init_headers = Some (HeadersInstance [(''X-Trace'', ''1'')])\<rparr>) empty_world)) ! 0)
     = [(''Content-Type'', ''application/json; charset=utf-8'')] \<and>
   resp_headers (responses (snd (noContent (Some
        \<lparr>init_status = None, init_statusText = None,
         init_headers = Some (HeadersInstance [(''X-Trace'', ''1'')])\<rparr>) empty_world)) ! 0)
     = [(''X-Trace'', ''1'')]"
  by code_simp

text \<open>
  What the construction does fix. For every mapping-based operation and every
  configuration object with which it returns a response, one with a status field of its
  own included, the status of the response is the operation's fixed status code, and its
  headers hold the entry \<open>Content-Type: application/json; charset=utf-8\<close>. Where the
  configuration gives its headers as a plain object, every entry but \<open>Content-Type\<close> is
  kept, an entry \<open>Content-Type\<close> is replaced, and the \<open>Content-Type\<close> of the response is
  exactly \<open>application/json; charset=utf-8\<close> provided no entry is named \<open>Content-Type\<close>
  in another spelling of case.
\<close>

theorem construction_fixes_status_and_content_type:
  assumes "(code, operation) \<in> set mapping_operations"
      and "operation d i w = (Inr r, w1)"
  shows "resp_status (responses w1 ! r) = code \<and>
         (''Content-Type'', ''application/json; charset=utf-8'') \<in> set (resp_headers (responses w1 ! r)) \<and>
         (i = None \<longrightarrow>
            resp_headers (responses w1 ! r) = [(''Content-Type'', ''application/json; charset=utf-8'')]) \<and>
         (i = Some c \<and> init_headers c = Some (HeadersRecord entries) \<and> distinct (map fst entries) \<longrightarrow>
            (\<forall>(k, v) \<in> set entries. k \<noteq> ''Content-Type'' \<longrightarrow> (k, v) \<in> set (resp_headers (responses w1 ! r))) \<and>
            ((\<forall>k \<in> set (map fst entries). same_header_name k ''Content-Type'' \<longrightarrow> k = ''Content-Type'') \<longrightarrow>
               Headers_get (resp_headers (responses w1 ! r)) ''Content-Type''
                 = Some ''application/json; charset=utf-8''))"
proof -
  from assms have built: "responseFunction code d i w = (Inr r, w1)"
    using mapping_operation_bound by blast
  then have accepted: "headers_accepted i"
    by (rule responseFunction_returned)
  let ?hs = "json_headers i"
  from built accepted have status: "resp_status (responses w1 ! r) = code"
    and headers: "resp_headers (responses w1 ! r) = ?hs"
    by (auto simp: responseFunction_result)
  have member: "(''Content-Type'', ''application/json; charset=utf-8'') \<in> set ?hs"
    unfolding json_headers_def by (rule set_prop_member)
  have without: "i = None \<longrightarrow> ?hs = [(''Content-Type'', ''application/json; charset=utf-8'')]"
    by (simp add: json_headers_def set_prop_def)
  have from_record: "(\<forall>(k, v) \<in> set entries. k \<noteq> ''Content-Type'' \<longrightarrow> (k, v) \<in> set ?hs) \<and>
     ((\<forall>k \<in> set (map fst entries). same_header_name k ''Content-Type'' \<longrightarrow> k = ''Content-Type'') \<longrightarrow>
        Headers_get ?hs ''Content-Type'' = Some ''application/json; charset=utf-8'')"
    if "i = Some c" and "init_headers c = Some (HeadersRecord entries)" and "distinct (map fst entries)"
  proof -
    from that(1,2) have hs: "?hs = set_prop entries ''Content-Type'' ''application/json; charset=utf-8''"
      by (simp add: json_headers_def)
    have kept: "\<forall>(k, v) \<in> set entries. k \<noteq> ''Content-Type'' \<longrightarrow>
            (k, v) \<in> set (set_prop entries ''Content-Type'' ''application/json; charset=utf-8'')"
      by (auto intro: set_prop_others)
    have exact: "Headers_get (set_prop entries ''Content-Type'' ''application/json; charset=utf-8'')
                   ''Content-Type'' = Some ''application/json; charset=utf-8''"
      if "\<forall>k \<in> set (map fst entries). same_header_name k ''Content-Type'' \<longrightarrow> k = ''Content-Type''"
      using \<open>distinct (map fst entries)\<close> that by (rule Headers_get_set_prop)
    show ?thesis
      unfolding hs using kept exact by blast
  qed
  show ?thesis
    unfolding status headers using member without from_record by blast
qed

theorem construction_fixes_status_and_content_type_witness:
  "fst (ok [] (Some
        \<lparr>init_status = Some 404, init_statusText = None,
         init_headers = Some (HeadersRecord [(''Content-Type'', ''text/plain''), (''X-Trace'', ''1'')])\<rparr>)
        empty_world) = Inr 0 \<and>
   resp_status (responses (snd (ok [] (Some
        \<lparr>init_status = Some 404, init_statusText = None,
         init_headers = Some (HeadersRecord [(''Content-Type'', ''text/plain''), (''X-Trace'', ''1'')])\<rparr>)
        empty_world)) ! 0) = 200 \<and>
   (''X-Trace'', ''1'') \<in> set (resp_headers (responses (snd (ok [] (Some
        \<lparr>init_status = Some 404, init_statusText = None,
         init_headers = Some (HeadersRecord [(''Content-Type'', ''text/plain''), (''X-Trace'', ''1'')])\<rparr>)
        empty_world)) ! 0)) \<and>
   Headers_get (resp_headers (responses (snd (ok [] (Some
        \<lparr>init_status = Some 404, init_statusText = None,
         init_headers = Some (HeadersRecord [(''Content-Type'', ''text/plain''), (''X-Trace'', ''1'')])\<rparr>)
        empty_world)) ! 0)) ''Content-Type'' = Some ''application/json; charset=utf-8''"
proof -
  let ?entries = "[(''Content-Type'', ''text/plain''), (''X-Trace'', ''1'')]"
  let ?c = "\<lparr>init_status = Some 404, init_statusText = None,
             init_headers = Some (HeadersRecord ?entries)\<rparr>"
  let ?X = "ok [] (Some ?c) empty_world"
  have returned: "fst ?X = Inr 0"
    by code_simp
  have h1: "(200, ok) \<in> set mapping_operations"
    by (simp add: mapping_operations_def)
  have h2: "?X = (Inr 0, snd ?X)"
    using returned by (metis prod.collapse)
  have h3: "Some ?c = Some ?c \<and> init_headers ?c = Some (HeadersRecord ?entries) \<and>
            distinct (map fst ?entries)"
    by simp
  have "\<not> same_header_name ''X-Trace'' ''Content-Type''"
    by code_simp
  then have h4: "\<forall>k \<in> set (map fst ?entries). same_header_name k ''Content-Type'' \<longrightarrow> k = ''Content-Type''"
    by simp
  show ?thesis
    using construction_fixes_status_and_content_type [OF h1 h2, of ?c ?entries] h3 h4 returned
    by simp
qed

section \<open>Encoding of errors\<close>

lemma serialize_array:
  "SerializeJSONProperty rep key (JArr elems) =
     Some (''['' @ join '','' (map (\<lambda>(i, e).
              case SerializeJSONProperty rep (nat_toString i) e of
                None \<Rightarrow> ''null'' | Some str \<Rightarrow> str) (enumerate 0 elems)) @ '']'')"
  by (subst SerializeJSONProperty.simps) (cases rep; simp add: errorReplacer_def)

lemma serialize_object:
  "SerializeJSONProperty rep key (JObj props) =
     Some (''{'' @ join '','' (concat (map (\<lambda>(k, v).
              case SerializeJSONProperty rep k v of
                None \<Rightarrow> [] | Some str \<Rightarrow> [QuoteJSONString k @ '':'' @ str]) props)) @ ''}'')"
  by (subst SerializeJSONProperty.simps) simp

lemma serialize_error:
  "SerializeJSONProperty ErrorReplacer key (JError name message) =
   SerializeJSONProperty ErrorReplacer key
     (JObj [(''message'', JStr message), (''name'', JStr name), (''isError'', JBool True)])"
  by (subst SerializeJSONProperty.simps, subst (2) SerializeJSONProperty.simps)
     (simp add: errorReplacer_def)

lemma serialize_atom:
  assumes "\<forall>elems. v \<noteq> JArr elems" "\<forall>props. v \<noteq> JObj props" "\<forall>name message. v \<noteq> JError name message"
  shows "SerializeJSONProperty ErrorReplacer key v = SerializeJSONProperty NoReplacer key v"
  using assms
  by (subst SerializeJSONProperty.simps, subst (2) SerializeJSONProperty.simps)
     (cases v; simp add: errorReplacer_def)

lemma enumerate_map_eq':
  "enumerate n (map f xs) = map (\<lambda>(i, x). (i, f x)) (enumerate n xs)"
  by (induction xs arbitrary: n) simp_all

lemma serialize_expanded:
  "SerializeJSONProperty ErrorReplacer key v = SerializeJSONProperty NoReplacer key (expand_errors v)"
proof (induction v arbitrary: key)
  case (JArr elems)
  have "map (\<lambda>(i, e). case SerializeJSONProperty ErrorReplacer (nat_toString i) e of
                None \<Rightarrow> ''null'' | Some str \<Rightarrow> str) (enumerate 0 elems)
      = map (\<lambda>(i, e). case SerializeJSONProperty NoReplacer (nat_toString i) e of
                None \<Rightarrow> ''null'' | Some str \<Rightarrow> str) (enumerate 0 (map expand_errors elems))"
    using JArr.IH by (auto simp: enumerate_map_eq' in_set_enumerate_eq)
  then show ?case
    by (simp only: expand_errors.simps serialize_array)
next
  case (JObj props)
  have "map (\<lambda>(k, v). case SerializeJSONProperty ErrorReplacer k v of
                None \<Rightarrow> [] | Some str \<Rightarrow> [QuoteJSONString k @ '':'' @ str]) props
      = map (\<lambda>(k, v). case SerializeJSONProperty NoReplacer k v of
                None \<Rightarrow> [] | Some str \<Rightarrow> [QuoteJSONString k @ '':'' @ str])
          (map (\<lambda>kv. (fst kv, expand_errors (snd kv))) props)"
    using JObj.IH by (auto simp: snds.simps split: option.splits)
  then show ?case
    by (simp only: expand_errors.simps serialize_object)
next
  case (JError name message)
  show ?case
    by (simp add: serialize_error serialize_object serialize_atom)
qed (simp_all add: serialize_atom)

lemma expand_error_free: "error_free v \<Longrightarrow> expand_errors v = v"
proof (induction v)
  case (JArr elems)
  then show ?case by (simp add: list_all_iff map_idI)
next
  case (JObj props)
  then have "map (\<lambda>kv. (fst kv, expand_errors (snd kv))) props = map (\<lambda>kv. kv) props"
    by (intro map_cong) (auto simp: list_all_iff snds.simps)
  then show ?case by simp
qed simp_all

text \<open>
  Claim C4 says that a rejection reason that is not error-like is serialized as-is. The
  replacer is called on every property the encoder visits, so an \<open>Error\<close> inside such a
  reason is expanded as well: the reason \<open>[new Error("x")]\<close>, an array, is encoded as
  \<open>[{}]\<close> by itself and with the expanded error in a settle-each body.
\<close>

theorem nested_error_in_reason_expanded:
  "JSON_stringify ErrorReplacer
     (JObj (hashSettled [(''a'', Pending (Rejects (JArr [JError ''Error'' ''x''])))]))
     = Some ''{\"a\":{\"status\":\"rejected\",\"reason\":[{\"message\":\"x\",\"name\":\"Error\",\"isError\":true}]}}'' \<and>
   JSON_stringify NoReplacer (JArr [JError ''Error'' ''x'']) = Some ''[{}]'' \<and>
   SerializeJSONProperty ErrorReplacer ''reason'' (JArr [JError ''Error'' ''x''])
     \<noteq> SerializeJSONProperty NoReplacer ''reason'' (JArr [JError ''Error'' ''x''])"
  by code_simp

text \<open>
  Claim C4, amended. In every serialized settle-each body a rejection reason that is an
  error-like value is serialized as the JSON object with its \<open>message\<close>, its \<open>name\<close> and
  \<open>isError: true\<close>; a rejection reason with no error-like value inside is serialized
  as-is, that is as without the replacer; and in general the body is the plain encoding
  of the settle-each result with every error-like value in it, at any depth, expanded so.
\<close>

theorem rejection_reason_encoding:
  "SerializeJSONProperty ErrorReplacer key (rejected_record (JError name message))
     = SerializeJSONProperty NoReplacer key
         (rejected_record (JObj [(''message'', JStr message), (''name'', JStr name),
                                  (''isError'', JBool True)])) \<and>
   (error_free reason \<longrightarrow>
      SerializeJSONProperty ErrorReplacer key (rejected_record reason)
        = SerializeJSONProperty NoReplacer key (rejected_record reason)) \<and>
   SerializeJSONProperty ErrorReplacer key (rejected_record reason)
     = SerializeJSONProperty NoReplacer key (rejected_record (expand_errors reason)) \<and>
   JSON_stringify ErrorReplacer (JObj (hashSettled d))
     = JSON_stringify NoReplacer (expand_errors (JObj (hashSettled d)))"
proof (intro conjI impI)
  show "SerializeJSONProperty ErrorReplacer key (rejected_record (JError name message))
     = SerializeJSONProperty NoReplacer key
         (rejected_record (JObj [(''message'', JStr message), (''name'', JStr name),
                                  (''isError'', JBool True)]))"
    by (simp add: serialize_expanded rejected_record_def)
  show expanded: "SerializeJSONProperty ErrorReplacer key (rejected_record reason)
     = SerializeJSONProperty NoReplacer key (rejected_record (expand_errors reason))"
    by (simp add: serialize_expanded rejected_record_def)
  show "SerializeJSONProperty ErrorReplacer key (rejected_record reason)
        = SerializeJSONProperty NoReplacer key (rejected_record reason)"
    if "error_free reason"
    using that expanded by (simp add: expand_error_free)
  show "JSON_stringify ErrorReplacer (JObj (hashSettled d))
     = JSON_stringify NoReplacer (expand_errors (JObj (hashSettled d)))"
    unfolding JSON_stringify_def by (rule serialize_expanded)
qed

theorem rejection_reason_encoding_witness:
  "SerializeJSONProperty ErrorReplacer ''a'' (rejected_record (JError ''TypeError'' ''asdf''))
     = Some ''{\"status\":\"rejected\",\"reason\":{\"message\":\"asdf\",\"name\":\"TypeError\",\"isError\":true}}'' \<and>
   error_free (JStr ''b'') \<and>
   SerializeJSONProperty ErrorReplacer ''b'' (rejected_record (JStr ''b''))
     = Some ''{\"status\":\"rejected\",\"reason\":\"b\"}''"
proof -
  have e1: "SerializeJSONProperty NoReplacer ''a''
         (rejected_record (JObj [(''message'', JStr ''asdf''), (''name'', JStr ''TypeError''),
                                  (''isError'', JBool True)]))
     = Some ''{\"status\":\"rejected\",\"reason\":{\"message\":\"asdf\",\"name\":\"TypeError\",\"isError\":true}}''"
    by code_simp
  have e2: "SerializeJSONProperty NoReplacer ''b'' (rejected_record (JStr ''b''))
     = Some ''{\"status\":\"rejected\",\"reason\":\"b\"}''"
    by code_simp
  have h: "error_free (JStr ''b'')"
    by simp
  show ?thesis
    using rejection_reason_encoding [of "''a''" "''TypeError''" "''asdf''" "JStr ''b''"]
      rejection_reason_encoding [of "''b''" "''TypeError''" "''asdf''" "JStr ''b''"] e1 e2 h
    by simp
qed

section \<open>The provisional body\<close>

lemma run_reaction_other_stream:
  "s' \<noteq> s \<Longrightarrow> streams (run_reaction (FillStream s' d') w) ! s = streams w ! s"
  by (simp add: push_null_def push_chunk_def Let_def split: option.splits)

lemma fold_run_reaction_other_stream:
  "list_all (\<lambda>rc. case rc of FillStream s' d' \<Rightarrow> s' \<noteq> s) rcs \<Longrightarrow>
   streams (fold run_reaction rcs w) ! s = streams w ! s"
proof (induction rcs arbitrary: w)
  case Nil
  then show ?case by simp
next
  case (Cons rc rcs)
  obtain s' d' where rc: "rc = FillStream s' d'" by (cases rc)
  from Cons.prems have "s' \<noteq> s" and rest: "list_all (\<lambda>rc. case rc of FillStream s' d' \<Rightarrow> s' \<noteq> s) rcs"
    by (simp_all add: rc)
  then show ?case
    using Cons.IH [OF rest, of "run_reaction rc w"] by (simp add: rc run_reaction_other_stream del: run_reaction.simps)
qed

lemma run_reaction_fills:
  assumes "s < length (streams w)" and "streams w ! s = \<lparr>chunks = [], ended = False\<rparr>"
  shows "stream_text (run_reaction (FillStream s d) w) s
         = JSON_stringify ErrorReplacer (JObj (hashSettled d))"
proof -
  obtain encoded where "JSON_stringify ErrorReplacer (JObj (hashSettled d)) = Some encoded"
    using stringify_object [of ErrorReplacer "hashSettled d"] by auto
  then show ?thesis
    using assms by (simp add: stream_text_def push_null_def push_chunk_def)
qed

lemma stream_filled:
  assumes "reactions w = rcs @ [FillStream s d]"
      and "list_all (\<lambda>rc. case rc of FillStream s' d' \<Rightarrow> s' \<noteq> s) rcs"
      and "s < length (streams w)"
      and "streams w ! s = \<lparr>chunks = [], ended = False\<rparr>"
  shows "stream_text (run_reactions w) s = JSON_stringify ErrorReplacer (JObj (hashSettled d))"
proof -
  let ?wm = "fold run_reaction rcs (w\<lparr>reactions := []\<rparr>)"
  have "streams ?wm ! s = \<lparr>chunks = [], ended = False\<rparr>"
    using fold_run_reaction_other_stream [OF assms(2), of "w\<lparr>reactions := []\<rparr>"] assms(4) by simp
  moreover have "s < length (streams ?wm)"
    using assms(3) fold_run_reaction_frame [of rcs "w\<lparr>reactions := []\<rparr>"] by simp
  ultimately have "stream_text (run_reaction (FillStream s d) ?wm) s
         = JSON_stringify ErrorReplacer (JObj (hashSettled d))"
    by (intro run_reaction_fills)
  then show ?thesis
    by (simp add: run_reactions_def assms(1) del: run_reaction.simps)
qed

lemma allocated_elsewhere:
  "reactions_allocated w \<Longrightarrow>
   list_all (\<lambda>rc. case rc of FillStream s' d' \<Rightarrow> s' \<noteq> length (streams w)) (reactions w)"
  by (auto simp: reactions_allocated_def list_all_iff split: reaction.splits)

lemma provisional_body:
  assumes "reactions_allocated w" and "responseFunction status d i w = (Inr r, w1)"
  shows "body_text w1 r = None"
    and "body_text (run_reactions w1) r = JSON_stringify ErrorReplacer (JObj (hashSettled d))"
proof -
  note accepted = responseFunction_returned [OF assms(2)]
  from assms(2) accepted show "body_text w1 r = None"
    by (auto simp: responseFunction_result body_text_def stream_text_def)
  have "stream_text (run_reactions w1) (length (streams w))
        = JSON_stringify ErrorReplacer (JObj (hashSettled d))"
    using assms(2) accepted allocated_elsewhere [OF assms(1)]
    by (intro stream_filled [where rcs = "reactions w"]) (auto simp: responseFunction_result)
  moreover have "resp_body (responses w1 ! r) = StreamBody (length (streams w))"
    and "r < length (responses w1)"
    using assms(2) accepted by (auto simp: responseFunction_result)
  ultimately show "body_text (run_reactions w1) r = JSON_stringify ErrorReplacer (JObj (hashSettled d))"
    by (simp add: body_text_def)
qed

text \<open>
  The condition on the waiting reactions holds of every world the operations produce
  from the empty one.
\<close>

lemma reactions_allocated_empty: "reactions_allocated empty_world"
  by (simp add: reactions_allocated_def empty_world_def)

lemma reactions_allocated_responseFunction:
  "reactions_allocated w \<Longrightarrow> reactions_allocated (snd (responseFunction status d i w))"
  by (auto simp: reactions_allocated_def responseFunction_result list_all_iff split: reaction.splits)

lemma reactions_allocated_await:
  "reactions_allocated w \<Longrightarrow> reactions_allocated (snd (await r w))"
  by (auto simp: reactions_allocated_def await_def response_then_def response_catch_def
      makeResponse_result list_all_iff Let_def
      split: option.splits thenable.splits sum.splits reaction.splits)

lemma reactions_allocated_run_reactions: "reactions_allocated (run_reactions w)"
  by (simp add: reactions_allocated_def run_reactions_def fold_run_reaction_frame)

lemma reactions_allocated_redirectFunction:
  "reactions_allocated w \<Longrightarrow> reactions_allocated (snd (redirectFunction status url w))"
  by (auto simp: reactions_allocated_def redirectFunction_result list_all_iff split: reaction.splits)

lemma reactions_allocated_noContent:
  "reactions_allocated w \<Longrightarrow> reactions_allocated (snd (noContent i w))"
  by (auto simp: reactions_allocated_def noContent_result list_all_iff split: reaction.splits)

lemma expand_fulfilled_records:
  "expand_errors (JObj (map (\<lambda>(k, v). (k, JObj [(''status'', JStr ''fulfilled''), (''value'', v)])) obj))
   = JObj (map (\<lambda>(k, v). (k, JObj [(''status'', JStr ''fulfilled''), (''value'', expand_errors v)])) obj)"
  by (simp add: comp_def case_prod_unfold)

lemma expand_error_free_values:
  "list_all (\<lambda>(k, v). error_free v) obj \<Longrightarrow>
   map (\<lambda>(k, v). (k, JObj [(''status'', JStr ''fulfilled''), (''value'', expand_errors v)])) obj
   = map (\<lambda>(k, v). (k, JObj [(''status'', JStr ''fulfilled''), (''value'', v)])) obj"
  by (induction obj) (auto simp: expand_error_free)

text \<open>
  Claim C3 says that the response returned without awaiting has a body equal to the JSON
  encoding of the mapping verbatim when the mapping has no pending computation. The body
  of that response is the stream filled from \<open>hashSettled\<close>: for \<open>ok({a: "a"})\<close> it is
  empty at first and then holds the settlement records, not \<open>{"a":"a"}\<close>.
\<close>

theorem provisional_body_not_verbatim:
  "fst (ok [(''a'', Plain (JStr ''a''))] None empty_world) = Inr 0 \<and>
   body_text (run_reactions (snd (ok [(''a'', Plain (JStr ''a''))] None empty_world))) 0
     = Some ''{\"a\":{\"status\":\"fulfilled\",\"value\":\"a\"}}'' \<and>
   JSON_stringify NoReplacer (JObj [(''a'', JStr ''a'')]) = Some ''{\"a\":\"a\"}'' \<and>
   body_text (run_reactions (snd (ok [(''a'', Plain (JStr ''a''))] None empty_world))) 0
     \<noteq> JSON_stringify NoReplacer (JObj [(''a'', JStr ''a'')]) \<and>
   body_text (snd (ok [(''a'', Plain (JStr ''a''))] None empty_world)) 0 = None"
  by code_simp

text \<open>
  Claim C3, amended. For every Field Mapping containing no pending computations, the
  response returned (without awaiting) by any mapping-based operation has the operation's
  fixed status code. Its body is pending at first and, once the provisional settlement
  has run, is the encoding that \<open>JSON.stringify\<close> makes with \<open>errorReplacer\<close> of the
  settle-each result, every key of the mapping with the record
  \<open>{status: "fulfilled", value}\<close> of its value: that is the plain JSON encoding of the
  records in which every error-like value inside a value is expanded to
  \<open>{message, name, isError: true}\<close>, and where no value holds an error-like value, the
  plain JSON encoding of the records with the values unchanged.
\<close>

theorem provisional_body_of_plain_mapping:
  assumes "(code, operation) \<in> set mapping_operations"
      and "distinct (map fst obj)"
      and "reactions_allocated w"
      and "operation (plain_mapping obj) i w = (Inr r, w1)"
  shows "resp_status (responses w1 ! r) = code \<and>
         resp_status (responses (run_reactions w1) ! r) = code \<and>
         body_text w1 r = None \<and>
         body_text (run_reactions w1) r =
           JSON_stringify ErrorReplacer
             (JObj (map (\<lambda>(k, v). (k, JObj [(''status'', JStr ''fulfilled''), (''value'', v)])) obj)) \<and>
         body_text (run_reactions w1) r =
           JSON_stringify NoReplacer
             (JObj (map (\<lambda>(k, v). (k, JObj [(''status'', JStr ''fulfilled''),
                                             (''value'', expand_errors v)])) obj)) \<and>
         (list_all (\<lambda>(k, v). error_free v) obj \<longrightarrow>
            body_text (run_reactions w1) r =
              JSON_stringify NoReplacer
                (JObj (map (\<lambda>(k, v). (k, JObj [(''status'', JStr ''fulfilled''), (''value'', v)])) obj))) \<and>
         body_text (run_reactions w1) r \<noteq> None"
proof -
  let ?records = "map (\<lambda>(k, v). (k, JObj [(''status'', JStr ''fulfilled''), (''value'', v)])) obj"
  let ?expanded = "map (\<lambda>(k, v). (k, JObj [(''status'', JStr ''fulfilled''),
                                            (''value'', expand_errors v)])) obj"
  from assms(1,4) have built: "responseFunction code (plain_mapping obj) i w = (Inr r, w1)"
    using mapping_operation_bound by blast
  then have status: "resp_status (responses w1 ! r) = code"
    using responseFunction_returned [OF built] by (auto simp: responseFunction_result)
  have "distinct (Object_keys (plain_mapping obj))"
    using assms(2) by (simp add: Object_keys_def plain_mapping_def comp_def case_prod_unfold)
  then have "hashSettled (plain_mapping obj) = map (\<lambda>(k, f). (k, settle f)) (plain_mapping obj)"
    by (rule hashSettled_distinct)
  also have "\<dots> = ?records"
    by (simp add: plain_mapping_def comp_def case_prod_unfold fulfilled_record_def)
  finally have settled: "hashSettled (plain_mapping obj) = ?records" .
  have filled: "body_text (run_reactions w1) r = JSON_stringify ErrorReplacer (JObj ?records)"
    using provisional_body(2) [OF assms(3) built] by (simp only: settled)
  have "JSON_stringify ErrorReplacer (JObj ?records)
        = JSON_stringify NoReplacer (expand_errors (JObj ?records))"
    unfolding JSON_stringify_def by (rule serialize_expanded)
  then have plain: "JSON_stringify ErrorReplacer (JObj ?records)
                    = JSON_stringify NoReplacer (JObj ?expanded)"
    by (simp only: expand_fulfilled_records)
  have unchanged: "JSON_stringify NoReplacer (JObj ?expanded) = JSON_stringify NoReplacer (JObj ?records)"
    if "list_all (\<lambda>(k, v). error_free v) obj"
    by (simp only: expand_error_free_values [OF that])
  have present: "JSON_stringify ErrorReplacer (JObj ?records) \<noteq> None"
    by (rule stringify_object)
  show ?thesis
    using status provisional_body(1) [OF assms(3) built] filled plain unchanged present
    by simp
qed

theorem provisional_body_of_plain_mapping_witness:
  "fst (notFound (plain_mapping [(''a'', JStr ''a''), (''n'', JNum 7)]) None empty_world) = Inr 0 \<and>
   resp_status (responses (snd (notFound (plain_mapping [(''a'', JStr ''a''), (''n'', JNum 7)]) None empty_world)) ! 0) = 404 \<and>
   list_all (\<lambda>(k, v). error_free v) [(''a'', JStr ''a''), (''n'', JNum 7)] \<and>
   body_text (run_reactions (snd (notFound (plain_mapping [(''a'', JStr ''a''), (''n'', JNum 7)]) None empty_world))) 0
     = Some ''{\"a\":{\"status\":\"fulfilled\",\"value\":\"a\"},\"n\":{\"status\":\"fulfilled\",\"value\":7}}'' \<and>
   body_text (run_reactions (snd (ok (plain_mapping [(''e'', JError ''Error'' ''x'')]) None empty_world))) 0
     = Some ''{\"e\":{\"status\":\"fulfilled\",\"value\":{\"message\":\"x\",\"name\":\"Error\",\"isError\":true}}}''"
proof -
  let ?obj = "[(''a'', JStr ''a''), (''n'', JNum 7)]"
  let ?X = "notFound (plain_mapping ?obj) None empty_world"
  let ?err = "[(''e'', JError ''Error'' ''x'')]"
  let ?Y = "ok (plain_mapping ?err) None empty_world"
  have h1: "(404, notFound) \<in> set mapping_operations"
    by (simp add: mapping_operations_def)
  have h2: "distinct (map fst ?obj)"
    by simp
  have h3: "reactions_allocated empty_world"
    by (simp add: reactions_allocated_def empty_world_def)
  have returned: "fst ?X = Inr 0"
    by (simp add: notFound_def responseFunction_result headers_accepted_none empty_world_def)
  then have h4: "?X = (Inr 0, snd ?X)"
    by (metis prod.collapse)
  have free: "list_all (\<lambda>(k, v). error_free v) ?obj"
    by simp
  have enc: "JSON_stringify NoReplacer
               (JObj (map (\<lambda>(k, v). (k, JObj [(''status'', JStr ''fulfilled''), (''value'', v)])) ?obj))
             = Some ''{\"a\":{\"status\":\"fulfilled\",\"value\":\"a\"},\"n\":{\"status\":\"fulfilled\",\"value\":7}}''"
    by code_simp
  have g1: "(200, ok) \<in> set mapping_operations"
    by (simp add: mapping_operations_def)
  have g2: "distinct (map fst ?err)"
    by simp
  have "fst ?Y = Inr 0"
    by (simp add: ok_def responseFunction_result headers_accepted_none empty_world_def)
  then have g4: "?Y = (Inr 0, snd ?Y)"
    by (metis prod.collapse)
  have enc': "JSON_stringify NoReplacer
               (JObj (map (\<lambda>(k, v). (k, JObj [(''status'', JStr ''fulfilled''),
                                               (''value'', expand_errors v)])) ?err))
             = Some ''{\"e\":{\"status\":\"fulfilled\",\"value\":{\"message\":\"x\",\"name\":\"Error\",\"isError\":true}}}''"
    by code_simp
  note first = provisional_body_of_plain_mapping [OF h1 h2 h3 h4]
  note second = provisional_body_of_plain_mapping [OF g1 g2 h3 g4]
  from first have status: "resp_status (responses (snd ?X) ! 0) = 404"
    by blast
  from first free have body: "body_text (run_reactions (snd ?X)) 0
      = JSON_stringify NoReplacer
          (JObj (map (\<lambda>(k, v). (k, JObj [(''status'', JStr ''fulfilled''), (''value'', v)])) ?obj))"
    by blast
  from second have body': "body_text (run_reactions (snd ?Y)) 0
      = JSON_stringify NoReplacer
          (JObj (map (\<lambda>(k, v). (k, JObj [(''status'', JStr ''fulfilled''),
                                          (''value'', expand_errors v)])) ?err))"
    by blast
  show ?thesis
    unfolding body body' enc enc' using returned status free by simp
qed

section \<open>The two settlement runs\<close>

lemma Promise_all_settled:
  "Promise_all fs = Inr vs \<Longrightarrow> map settle fs = map fulfilled_record vs"
  by (induction fs arbitrary: vs rule: Promise_all.induct) (auto split: sum.splits)

lemma Promise_all_reason:
  "Promise_all fs = Inl reason \<Longrightarrow> rejected_record reason \<in> set (map settle fs)"
  by (induction fs rule: Promise_all.induct) (auto split: sum.splits)

lemma hash_agrees_with_hashSettled:
  assumes "distinct (Object_keys d)"
  shows "hash d = Inr resolved \<Longrightarrow>
           hashSettled d = map (\<lambda>(k, v). (k, fulfilled_record v)) resolved"
    and "hash d = Inl reason \<Longrightarrow> rejected_record reason \<in> set (Object_values (hashSettled d))"
proof -
  have settled: "hashSettled d = map (\<lambda>(k, f). (k, settle f)) d"
    using assms by (rule hashSettled_distinct)
  have zipped: "map (\<lambda>(k, f). (k, settle f)) d = zip (map fst d) (map settle (map snd d))"
    by (induction d) auto
  show "hashSettled d = map (\<lambda>(k, v). (k, fulfilled_record v)) resolved"
    if "hash d = Inr resolved"
  proof -
    from that obtain vs where all: "Promise_all (map snd d) = Inr vs"
      by (auto simp: hash_def Object_values_def split: sum.splits)
    then have len: "length vs = length (map fst d)"
      using Promise_all_length by fastforce
    with that all assms have resolved: "resolved = zip (map fst d) vs"
      by (simp add: hash_def Object_values_def Object_keys_def reassociate)
    have "map settle (map snd d) = map fulfilled_record vs"
      using all by (rule Promise_all_settled)
    then show ?thesis
      by (simp only: settled zipped resolved zip_map2)
  qed
  show "rejected_record reason \<in> set (Object_values (hashSettled d))"
    if "hash d = Inl reason"
  proof -
    from that have "Promise_all (map snd d) = Inl reason"
      by (auto simp: hash_def Object_values_def split: sum.splits)
    then have "rejected_record reason \<in> set (map settle (map snd d))"
      by (rule Promise_all_reason)
    then show ?thesis
      by (simp add: settled Object_values_def comp_def case_prod_unfold)
  qed
qed

text \<open>
  Claim C9. For one Deferred Response the two settlement runs, the eager one behind the
  provisional body and the one on the await path, agree in content. The provisional body
  is the encoding of the settle-each result whether it is filled before or after the
  await. When the await resolves, its fail-fast result holds for every key the value
  that the settle-each result records as fulfilled; when it rejects, its body is the
  encoding of the same settle-each result, and the reason that failed the fail-fast run
  is among the recorded rejections. A pending computation settles once, so the embedding
  gives both runs the same outcomes; their timing is not modelled.
\<close>

theorem settlement_runs_agree:
  assumes "distinct (Object_keys d)"
      and "reactions_allocated w"
      and "responseFunction status d i w = (Inr r, w1)"
      and "await r w1 = (res, w2)"
  shows "body_text (run_reactions w1) r = JSON_stringify ErrorReplacer (JObj (hashSettled d)) \<and>
         body_text (run_reactions w2) r = JSON_stringify ErrorReplacer (JObj (hashSettled d)) \<and>
         (case hash d of
            Inr resolved \<Rightarrow>
              res = Inr (length (responses w1)) \<and>
              body_text w2 (length (responses w1)) = JSON_stringify NoReplacer (JObj resolved) \<and>
              hashSettled d = map (\<lambda>(k, v). (k, fulfilled_record v)) resolved
          | Inl reason \<Rightarrow>
              res = Inl (ThrownResponse (length (responses w1))) \<and>
              body_text w2 (length (responses w1))
                = JSON_stringify ErrorReplacer (JObj (hashSettled d)) \<and>
              rejected_record reason \<in> set (Object_values (hashSettled d)))"
proof -
  have same: "w1 = w1 \<or> w1 = run_reactions w1"
    by simp
  note facts = await_constructed [OF assms(3) same]
  from assms(3) facts(6)
  have w1: "w1 = w\<lparr>responses := responses w @
               [\<lparr>resp_status = status,
                 resp_statusText = (case init_statusText (spread_init i) of None \<Rightarrow> [] | Some t \<Rightarrow> t),
                 resp_headers = json_headers i,
                 resp_body = StreamBody (length (streams w)),
                 resp_then = Some (Then status d i)\<rparr>],
              streams := streams w @ [\<lparr>chunks = [], ended = False\<rparr>],
              reactions := reactions w @ [FillStream (length (streams w)) d]\<rparr>"
    and r: "r = length (responses w)"
    by (simp_all add: responseFunction_result)
  have before: "body_text (run_reactions w1) r = JSON_stringify ErrorReplacer (JObj (hashSettled d))"
    using assms(2,3) by (rule provisional_body(2))
  have appended: "\<exists>new. w2 = w1\<lparr>responses := responses w1 @ [new]\<rparr>"
    using assms(4) facts(1,6)
    by (cases "hash d") (auto simp: response_then_result makeResponse_result)
  then obtain new where w2: "w2 = w1\<lparr>responses := responses w1 @ [new]\<rparr>"
    by blast
  have "stream_text (run_reactions w2) (length (streams w))
        = JSON_stringify ErrorReplacer (JObj (hashSettled d))"
    using allocated_elsewhere [OF assms(2)]
    by (intro stream_filled [where rcs = "reactions w"]) (auto simp: w2 w1)
  moreover have "resp_body (responses w2 ! r) = StreamBody (length (streams w))"
    and "r < length (responses w2)"
    by (auto simp: w2 w1 r nth_append)
  ultimately have after: "body_text (run_reactions w2) r
                          = JSON_stringify ErrorReplacer (JObj (hashSettled d))"
    by (simp add: body_text_def)
  have paths: "(case hash d of
            Inr resolved \<Rightarrow>
              res = Inr (length (responses w1)) \<and>
              body_text w2 (length (responses w1)) = JSON_stringify NoReplacer (JObj resolved) \<and>
              hashSettled d = map (\<lambda>(k, v). (k, fulfilled_record v)) resolved
          | Inl reason \<Rightarrow>
              res = Inl (ThrownResponse (length (responses w1))) \<and>
              body_text w2 (length (responses w1))
                = JSON_stringify ErrorReplacer (JObj (hashSettled d)) \<and>
              rejected_record reason \<in> set (Object_values (hashSettled d)))"
  proof (cases "hash d")
    case (Inl reason)
    obtain encoded where "JSON_stringify ErrorReplacer (JObj (hashSettled d)) = Some encoded"
      using stringify_object [of ErrorReplacer "hashSettled d"] by auto
    then show ?thesis
      using Inl assms(4) facts(1,6) hash_agrees_with_hashSettled(2) [OF assms(1) Inl]
      by (auto simp: response_then_result makeResponse_result body_text_def nth_append)
  next
    case (Inr resolved)
    obtain encoded where "JSON_stringify NoReplacer (JObj resolved) = Some encoded"
      using stringify_object [of NoReplacer resolved] by auto
    then show ?thesis
      using Inr assms(4) facts(1,6) hash_agrees_with_hashSettled(1) [OF assms(1) Inr]
      by (auto simp: response_then_result makeResponse_result body_text_def nth_append)
  qed
  show ?thesis
    using before after paths by blast
qed

theorem settlement_runs_agree_witness:
  "fst (await 0 (snd (responseFunction 200
          [(''a'', Pending (Resolves (JStr ''a''))), (''b'', Pending (Rejects (JStr ''b'')))]
          None empty_world))) = Inl (ThrownResponse 1) \<and>
   body_text (snd (await 0 (snd (responseFunction 200
          [(''a'', Pending (Resolves (JStr ''a''))), (''b'', Pending (Rejects (JStr ''b'')))]
          None empty_world)))) 1
     = Some ''{\"a\":{\"status\":\"fulfilled\",\"value\":\"a\"},\"b\":{\"status\":\"rejected\",\"reason\":\"b\"}}'' \<and>
   body_text (run_reactions (snd (await 0 (snd (responseFunction 200
          [(''a'', Pending (Resolves (JStr ''a''))), (''b'', Pending (Rejects (JStr ''b'')))]
          None empty_world))))) 0
     = Some ''{\"a\":{\"status\":\"fulfilled\",\"value\":\"a\"},\"b\":{\"status\":\"rejected\",\"reason\":\"b\"}}''"
proof -
  let ?d = "[(''a'', Pending (Resolves (JStr ''a''))), (''b'', Pending (Rejects (JStr ''b'')))]"
  let ?w1 = "snd (responseFunction 200 ?d None empty_world)"
  have h1: "distinct (Object_keys ?d)"
    by (simp add: Object_keys_def)
  have h2: "reactions_allocated empty_world"
    by (simp add: reactions_allocated_def empty_world_def)
  have h3: "responseFunction 200 ?d None empty_world = (Inr 0, ?w1)"
    by (simp add: responseFunction_result headers_accepted_none empty_world_def)
  have h4: "await 0 ?w1 = (fst (await 0 ?w1), snd (await 0 ?w1))"
    by simp
  have len: "length (responses ?w1) = 1"
    by (simp add: responseFunction_result headers_accepted_none empty_world_def)
  have failed: "hash ?d = Inl (JStr ''b'')"
    by (simp add: hash_def Object_values_def)
  have enc: "JSON_stringify ErrorReplacer (JObj (hashSettled ?d))
     = Some ''{\"a\":{\"status\":\"fulfilled\",\"value\":\"a\"},\"b\":{\"status\":\"rejected\",\"reason\":\"b\"}}''"
    by code_simp
  show ?thesis
    using settlement_runs_agree [OF h1 h2 h3 h4] len failed enc by simp
qed

end
